theory Spec2Isabelle
  imports Complex_Main "HOL-Library.Multiset"
begin

chapter \<open>The inference core of the weight tracker\<close>

text \<open>
  A model of the computations of \<open>src/components/WeightTrackerApp.tsx\<close>: the statistics
  primitives, the trend and caloric inference, the entry log, the empirical kcal/kg
  estimator, the period aggregator and the body composition estimator with the effect that
  commits its calibration factor, and a run of that estimator on the arrays it is given. The definitions come first, section by section in the
  order of the source; the properties proved about them follow.
\<close>

section \<open>Numbers of the program\<close>

text \<open>
  The program computes with JavaScript numbers. A division by zero does not raise there:
  it yields \<open>NaN\<close> (for \<open>0 / 0\<close>) or an infinity, and the value then flows through every
  later operation. The model keeps exactly that: a number is a finite real, \<open>NaN\<close>, or one
  of the two infinities. Finite arithmetic is exact (rounding, overflow and the sign of
  zero are not modelled), so a finite value that is zero here is the value the source
  computes whenever its own arithmetic is exact, as it is on the small inputs used below.
  The empirical estimator, whose guards compare computed values with zero, is modelled a
  second time with the rounding of each operation.
\<close>

datatype number = Fin real | NaN | PosInf | NegInf

instantiation number :: "{zero, one, plus, uminus, minus, times, inverse, ord}"
begin

definition zero_number :: number where
  "zero_number = Fin 0"

definition one_number :: number where
  "one_number = Fin 1"

fun plus_number :: "number \<Rightarrow> number \<Rightarrow> number" where
  "plus_number (Fin a) (Fin b) = Fin (a + b)"
| "plus_number NaN _ = NaN"
| "plus_number _ NaN = NaN"
| "plus_number PosInf NegInf = NaN"
| "plus_number NegInf PosInf = NaN"
| "plus_number PosInf _ = PosInf"
| "plus_number _ PosInf = PosInf"
| "plus_number NegInf _ = NegInf"
| "plus_number _ NegInf = NegInf"

fun uminus_number :: "number \<Rightarrow> number" where
  "uminus_number (Fin a) = Fin (- a)"
| "uminus_number NaN = NaN"
| "uminus_number PosInf = NegInf"
| "uminus_number NegInf = PosInf"

definition minus_number :: "number \<Rightarrow> number \<Rightarrow> number" where
  "minus_number a b = a + (- b)"

fun times_number :: "number \<Rightarrow> number \<Rightarrow> number" where
  "times_number (Fin a) (Fin b) = Fin (a * b)"
| "times_number NaN _ = NaN"
| "times_number _ NaN = NaN"
| "times_number (Fin a) PosInf = (if a = 0 then NaN else if 0 < a then PosInf else NegInf)"
| "times_number (Fin a) NegInf = (if a = 0 then NaN else if 0 < a then NegInf else PosInf)"
| "times_number PosInf (Fin b) = (if b = 0 then NaN else if 0 < b then PosInf else NegInf)"
| "times_number NegInf (Fin b) = (if b = 0 then NaN else if 0 < b then NegInf else PosInf)"
| "times_number PosInf PosInf = PosInf"
| "times_number PosInf NegInf = NegInf"
| "times_number NegInf PosInf = NegInf"
| "times_number NegInf NegInf = PosInf"

fun divide_number :: "number \<Rightarrow> number \<Rightarrow> number" where
  "divide_number (Fin a) (Fin b) =
     (if b = 0 then (if a = 0 then NaN else if 0 < a then PosInf else NegInf)
      else Fin (a / b))"
| "divide_number NaN _ = NaN"
| "divide_number _ NaN = NaN"
| "divide_number (Fin a) PosInf = Fin 0"
| "divide_number (Fin a) NegInf = Fin 0"
| "divide_number PosInf (Fin b) = (if 0 \<le> b then PosInf else NegInf)"
| "divide_number NegInf (Fin b) = (if 0 \<le> b then NegInf else PosInf)"
| "divide_number PosInf PosInf = NaN"
| "divide_number PosInf NegInf = NaN"
| "divide_number NegInf PosInf = NaN"
| "divide_number NegInf NegInf = NaN"

definition inverse_number :: "number \<Rightarrow> number" where
  "inverse_number a = (Fin 1) div a"

text \<open>Comparisons with \<open>NaN\<close> are false on both sides.\<close>

fun less_number :: "number \<Rightarrow> number \<Rightarrow> bool" where
  "less_number (Fin a) (Fin b) = (a < b)"
| "less_number NaN _ = False"
| "less_number _ NaN = False"
| "less_number _ NegInf = False"
| "less_number PosInf _ = False"
| "less_number NegInf _ = True"
| "less_number _ PosInf = True"

fun less_eq_number :: "number \<Rightarrow> number \<Rightarrow> bool" where
  "less_eq_number (Fin a) (Fin b) = (a \<le> b)"
| "less_eq_number NaN _ = False"
| "less_eq_number _ NaN = False"
| "less_eq_number NegInf _ = True"
| "less_eq_number _ PosInf = True"
| "less_eq_number _ NegInf = False"
| "less_eq_number PosInf _ = False"

instance ..

end

text \<open>\<open>Math.sqrt\<close>, \<open>Math.abs\<close>, \<open>Math.pow(v, 2)\<close> and \<open>v ** 2\<close>.\<close>

fun Math_sqrt :: "number \<Rightarrow> number" where
  "Math_sqrt (Fin a) = (if a < 0 then NaN else Fin (sqrt a))"
| "Math_sqrt NaN = NaN"
| "Math_sqrt PosInf = PosInf"
| "Math_sqrt NegInf = NaN"

fun Math_abs :: "number \<Rightarrow> number" where
  "Math_abs (Fin a) = Fin \<bar>a\<bar>"
| "Math_abs NaN = NaN"
| "Math_abs PosInf = PosInf"
| "Math_abs NegInf = PosInf"

definition pow2 :: "number \<Rightarrow> number" where
  "pow2 v = v * v"

text \<open>
  \<open>Math.min(a, b)\<close> and \<open>Math.max(a, b)\<close> return \<open>NaN\<close> as soon as one argument is
  \<open>NaN\<close>; with no argument they are \<open>Infinity\<close> and \<open>-Infinity\<close>.
\<close>

definition Math_min2 :: "number \<Rightarrow> number \<Rightarrow> number" where
  "Math_min2 a b = (if a = NaN \<or> b = NaN then NaN else if a \<le> b then a else b)"

definition Math_max2 :: "number \<Rightarrow> number \<Rightarrow> number" where
  "Math_max2 a b = (if a = NaN \<or> b = NaN then NaN else if a \<le> b then b else a)"

definition Math_min :: "number list \<Rightarrow> number" where
  "Math_min vs = foldl Math_min2 PosInf vs"

definition Math_max :: "number list \<Rightarrow> number" where
  "Math_max vs = foldl Math_max2 NegInf vs"

text \<open>
  An array read \<open>a[i]\<close> used as a number: past the end it is \<open>undefined\<close>, which every
  arithmetic operation turns into \<open>NaN\<close>.
\<close>

definition item :: "number list \<Rightarrow> nat \<Rightarrow> number" where
  "item vs i = (if i < length vs then vs ! i else NaN)"

text \<open>\<open>a.reduce((s, v) => s + v, 0)\<close>.\<close>

definition sum_numbers :: "number list \<Rightarrow> number" where
  "sum_numbers vs = foldl (\<lambda>s v. s + v) (Fin 0) vs"

section \<open>Statistics primitives\<close>

record regression =
  slope :: number
  intercept :: number
  r2 :: number

text \<open>\<open>linearRegression(x, y)\<close>, with \<open>n = x.length\<close> and every read of \<open>y[i]\<close>, \<open>x[i]\<close> by index.\<close>

definition linearRegression :: "number list \<Rightarrow> number list \<Rightarrow> regression" where
  "linearRegression x y =
     (let n = length x in
      if n < 2 then \<lparr>slope = Fin 0, intercept = Fin 0, r2 = Fin 0\<rparr>
      else
        let sumX = sum_numbers x;
            sumY = sum_numbers y;
            sumXY = foldl (\<lambda>a (i, b). a + b * item y i) (Fin 0) (enumerate 0 x);
            sumXX = foldl (\<lambda>a b. a + b * b) (Fin 0) x;
            slope = (Fin (real n) * sumXY - sumX * sumY) / (Fin (real n) * sumXX - sumX * sumX);
            intercept = (sumY - slope * sumX) / Fin (real n);
            yMean = sumY / Fin (real n);
            ssTot = foldl (\<lambda>a b. a + pow2 (b - yMean)) (Fin 0) y;
            ssRes = foldl (\<lambda>a (i, b). a + pow2 (b - (slope * item x i + intercept))) (Fin 0)
                      (enumerate 0 y);
            r2 = Fin 1 - ssRes / ssTot
        in \<lparr>slope = slope, intercept = intercept, r2 = r2\<rparr>)"

section \<open>Dates, entries and settings\<close>

text \<open>
  An entry's \<open>date\<close> is a string \<open>'YYYY-MM-DD'\<close> taken from a date input. The model
  represents it by its day number, the count of days since 1970-01-01: on well-formed
  dates \<open>a.date.localeCompare(b.date)\<close> and the string comparisons \<open><=\<close>, \<open>>=\<close>,
  \<open>===\<close> are the order and equality of day numbers, and \<open>new Date(s).getTime()\<close> is the
  day number times \<open>DAY_MS\<close> (the string is read as midnight UTC).
  \<open>ymd y m d\<close> is the day number of the date written \<open>y-m-d\<close> (proleptic Gregorian
  calendar), so that inputs can be written as the program's user writes them.
\<close>

type_synonym date = int

definition ymd :: "int \<Rightarrow> int \<Rightarrow> int \<Rightarrow> date" where
  "ymd y m d =
     (let y' = (if m \<le> 2 then y - 1 else y);
          era = y' div 400;
          yoe = y' mod 400;
          doy = (153 * (if 2 < m then m - 3 else m + 9) + 2) div 5 + d - 1;
          doe = yoe * 365 + yoe div 4 - yoe div 100 + doy
      in era * 146097 + doe - 719468)"

definition DAY_MS :: int where
  "DAY_MS = 24 * 60 * 60 * 1000"

definition getTime :: "date \<Rightarrow> int" where
  "getTime d = d * DAY_MS"

record entry =
  date :: date
  weight :: real
  calories :: "real option"

datatype ConfidenceLevel = C80 | C90 | C95 | C99

fun zScores :: "ConfidenceLevel \<Rightarrow> real" where
  "zScores C80 = 1.28"
| "zScores C90 = 1.645"
| "zScores C95 = 1.96"
| "zScores C99 = 2.576"

datatype TrendWindowOption = W14 | W30 | W60 | WAll

datatype StatsGroupingOption = G1w | G2w | G1m | G2m

definition KCAL_PER_KG :: real where
  "KCAL_PER_KG = 7700"

definition MIN_DAYS_FOR_INFERENCE :: nat where
  "MIN_DAYS_FOR_INFERENCE = 14"

text \<open>\<open>[...entries].sort((a, b) => a.date.localeCompare(b.date))\<close>: a stable sort by date.\<close>

definition sortByDate :: "entry list \<Rightarrow> entry list" where
  "sortByDate es = sort_key date es"

section \<open>Trend and caloric inference\<close>

text \<open>
  \<open>getAverageIntake\<close>: the mean of the logged calories, \<open>null\<close> with fewer than two
  entries that have calories.
\<close>

definition getAverageIntake :: "entry list \<Rightarrow> real option" where
  "getAverageIntake es =
     (let withCalories = filter (\<lambda>e. calories e \<noteq> None) es in
      if length withCalories < 2 then None
      else
        let total = foldl (\<lambda>s e. s + (case calories e of Some c \<Rightarrow> c | None \<Rightarrow> 0)) 0 withCalories
        in Some (total / real (length withCalories)))"

text \<open>
  The standard error of the slope, as \<open>calculateCaloricInference\<close> computes it from the
  regressor \<open>x\<close>, the weights \<open>y\<close> and the fitted slope \<open>fitted\<close>: the residual sum is divided
  by \<open>n - 2\<close> and the quotient by \<open>ssx\<close>, neither division being guarded.
\<close>

definition slopeSE :: "number list \<Rightarrow> number list \<Rightarrow> number \<Rightarrow> number" where
  "slopeSE x y fitted =
     (let n = Fin (real (length x));
          xMean = sum_numbers x / n;
          yMean = sum_numbers y / n;
          ssx = foldl (\<lambda>a b. a + pow2 (b - xMean)) (Fin 0) x;
          mse = foldl (\<lambda>a (i, b). a + pow2 (b - (fitted * item x i + yMean - fitted * xMean)))
                  (Fin 0) (enumerate 0 y) / (n - Fin 2)
      in Math_sqrt (mse / ssx))"

record trendPoint =
  tp_date :: date
  tp_weight :: real
  predicted :: number
  predictedLow :: number
  predictedHigh :: number
  predictedRange :: number

record CaloricInference =
  maintenanceCalories :: number
  confidenceInterval :: "number \<times> number"
  weightChangeRate :: number
  weightChangeRateCI :: "number \<times> number"
  slopeCI :: "number \<times> number"
  ci_intercept :: number
  daysOfData :: number
  ci_r2 :: number
  trendData :: "trendPoint list"

text \<open>The elapsed days of each entry since the first one, the regressor of the trend.\<close>

definition elapsedDays :: "entry list \<Rightarrow> number list" where
  "elapsedDays es =
     (case es of
        [] \<Rightarrow> []
      | e0 # _ \<Rightarrow>
          map (\<lambda>e. Fin (real_of_int (getTime (date e) - getTime (date e0)) / real_of_int (1000 * 60 * 60 * 24))) es)"

definition calculateCaloricInference :: "entry list \<Rightarrow> ConfidenceLevel \<Rightarrow> CaloricInference option" where
  "calculateCaloricInference es conf =
     (if length es < 2 then None
      else
        let x = elapsedDays es;
            y = map (\<lambda>e. Fin (weight e)) es;
            reg = linearRegression x y;
            se = slopeSE x y (slope reg);
            z = Fin (zScores conf);
            sCI = (slope reg - z * se, slope reg + z * se);
            rate = slope reg;
            rateCI = (fst sCI, snd sCI);
            avgIntake = getAverageIntake es;
            maintenanceCandidates =
              (case avgIntake of
                 Some a \<Rightarrow> [Fin a - snd rateCI * Fin KCAL_PER_KG, Fin a - fst rateCI * Fin KCAL_PER_KG]
               | None \<Rightarrow> [Math_abs (fst rateCI * Fin KCAL_PER_KG), Math_abs (snd rateCI * Fin KCAL_PER_KG)]);
            maintenance =
              (case avgIntake of
                 Some a \<Rightarrow> Fin a - rate * Fin KCAL_PER_KG
               | None \<Rightarrow> Math_abs (rate * Fin KCAL_PER_KG));
            maintenanceCI = (Math_min maintenanceCandidates, Math_max maintenanceCandidates);
            trend = map (\<lambda>(i, e).
                      let p = slope reg * item x i + intercept reg;
                          pLow = fst sCI * item x i + intercept reg;
                          pHigh = snd sCI * item x i + intercept reg
                      in \<lparr>tp_date = date e, tp_weight = weight e, predicted = p,
                          predictedLow = pLow, predictedHigh = pHigh,
                          predictedRange = pHigh - pLow\<rparr>) (enumerate 0 es)
        in Some \<lparr>maintenanceCalories = maintenance,
                 confidenceInterval = maintenanceCI,
                 weightChangeRate = rate,
                 weightChangeRateCI = rateCI,
                 slopeCI = sCI,
                 ci_intercept = intercept reg,
                 daysOfData = (Math_max x - Math_min x) + Fin 1,
                 ci_r2 = r2 reg,
                 trendData = trend\<rparr>)"

section \<open>The entry log\<close>

text \<open>
  \<open>addEntry\<close> reads three form fields. The model takes them as the handler sees them:
  the date field (\<open>None\<close> when empty), and for the weight and calories fields \<open>None\<close>
  when the field is empty, else what \<open>parseFloat\<close> returned (\<open>NaN\<close> for text that is
  not a number). Each \<open>alert(...); return\<close> of the handler is an \<open>Inl\<close> result and
  leaves the log as it was; otherwise the new log is returned.
\<close>

datatype alert = EnterDateAndWeight | WeightNotPositive | CaloriesNotPositive

text \<open>The deduplication by date, the append and the sort that end \<open>addEntry\<close>.\<close>

definition insertEntry :: "entry list \<Rightarrow> entry \<Rightarrow> entry list" where
  "insertEntry entries newEntry =
     (let filtered = filter (\<lambda>e. date e \<noteq> date newEntry) entries;
          newEntries = filtered @ [newEntry]
      in sortByDate newEntries)"

definition addEntry :: "entry list \<Rightarrow> date option \<Rightarrow> number option \<Rightarrow> number option \<Rightarrow> alert + entry list" where
  "addEntry entries dateIn weightIn caloriesIn =
     (case (dateIn, weightIn) of
        (Some d, Some parsedWeight) \<Rightarrow>
          (case parsedWeight of
             Fin w \<Rightarrow>
               if w \<le> 0 then Inl WeightNotPositive
               else
                 (case caloriesIn of
                    None \<Rightarrow> Inr (insertEntry entries \<lparr>date = d, weight = w, calories = None\<rparr>)
                  | Some (Fin c) \<Rightarrow>
                      if c \<le> 0 then Inl CaloriesNotPositive
                      else Inr (insertEntry entries \<lparr>date = d, weight = w, calories = Some c\<rparr>)
                  | Some _ \<Rightarrow> Inl CaloriesNotPositive)
           | _ \<Rightarrow> Inl WeightNotPositive)
      | _ \<Rightarrow> Inl EnterDateAndWeight)"

section \<open>Empirical kcal/kg estimator\<close>

text \<open>
  \<open>calculateEmpiricalKcalPerKg\<close> computes with finite numbers only: each of its divisions
  is by a constant or by a value the code has just tested (\<open>days > 0\<close>,
  \<open>denominator !== 0\<close>, \<open>slope !== 0\<close>, \<open>ssTot !== 0\<close>, \<open>n >= 3\<close>), so it is
  modelled over the reals. This is the estimator in exact arithmetic, the form in which the
  body composition estimator uses it; the estimator with the rounding of its operations,
  on which its guards depend, follows in a subsection of its own.
\<close>

record pair =
  avgCalories :: real
  weightRate :: real

text \<open>The inner loop: the intervals from \<open>cur\<close> (whose calories are \<open>cc\<close>) to each later entry.\<close>

fun pairsFrom :: "entry \<Rightarrow> real \<Rightarrow> entry list \<Rightarrow> pair list" where
  "pairsFrom cur cc [] = []"
| "pairsFrom cur cc (nxt # rest) =
     (case calories nxt of
        None \<Rightarrow> pairsFrom cur cc rest
      | Some cn \<Rightarrow>
          let days = real_of_int (getTime (date nxt) - getTime (date cur)) / real_of_int DAY_MS in
          if days \<le> 0 then pairsFrom cur cc rest
          else \<lparr>avgCalories = (cc + cn) / 2, weightRate = (weight nxt - weight cur) / days\<rparr>
                 # pairsFrom cur cc rest)"

fun allPairs :: "entry list \<Rightarrow> pair list" where
  "allPairs [] = []"
| "allPairs (cur # rest) =
     (case calories cur of
        None \<Rightarrow> allPairs rest
      | Some cc \<Rightarrow> pairsFrom cur cc rest @ allPairs rest)"

record EmpiricalEstimate =
  empirical :: "real option"
  maintenance :: "real option"
  ee_r2 :: "real option"
  intervals :: nat

text \<open>The result returned on each of the three early exits.\<close>

definition noEstimate :: "nat \<Rightarrow> EmpiricalEstimate" where
  "noEstimate k = \<lparr>empirical = None, maintenance = None, ee_r2 = None, intervals = k\<rparr>"

definition calculateEmpiricalKcalPerKg :: "entry list \<Rightarrow> EmpiricalEstimate" where
  "calculateEmpiricalKcalPerKg entries =
     (let pairs = allPairs (sortByDate entries);
          intervals = length pairs
      in if intervals < 3 then noEstimate intervals
      else
        let x = map avgCalories pairs;
            y = map weightRate pairs;
            n = real (length x);
            sumX = foldl (\<lambda>s v. s + v) 0 x;
            sumY = foldl (\<lambda>s v. s + v) 0 y;
            sumXY = foldl (\<lambda>s (idx, v). s + v * y ! idx) 0 (enumerate 0 x);
            sumXX = foldl (\<lambda>s v. s + v * v) 0 x;
            denominator = n * sumXX - sumX * sumX
        in if denominator = 0 then noEstimate intervals
        else
          let slope = (n * sumXY - sumX * sumY) / denominator
          in if slope = 0 then noEstimate intervals
          else
            let intercept = (sumY - slope * sumX) / n;
                meanY = sumY / n;
                ssTot = foldl (\<lambda>s v. s + (v - meanY)\<^sup>2) 0 y;
                ssRes = foldl (\<lambda>s (idx, v). s + (v - (slope * x ! idx + intercept))\<^sup>2) 0 (enumerate 0 y);
                r2 = (if ssTot = 0 then 0 else 1 - ssRes / ssTot)
            in \<lparr>empirical = Some \<bar>1 / slope\<bar>, maintenance = Some (- intercept / slope),
                ee_r2 = Some r2, intervals = intervals\<rparr>)"

subsection \<open>The estimator as the specification words it\<close>

text \<open>
  The specification's wording, for comparison with the code: all pairs \<open>i < j\<close> of the
  date-ordered log in which both entries have calories and the day gap is positive, each
  giving the point (average calories, weight rate); and the least-squares line through
  these points in its textbook form, slope \<open>Sxy / Sxx\<close> and intercept
  \<open>mean y - slope * mean x\<close>, which exists when \<open>Sxx\<close> is not zero.
\<close>

definition spec_daysBetween :: "entry \<Rightarrow> entry \<Rightarrow> real" where
  "spec_daysBetween a b = real_of_int (date b - date a)"

definition spec_validPair :: "entry \<Rightarrow> entry \<Rightarrow> bool" where
  "spec_validPair a b \<longleftrightarrow> calories a \<noteq> None \<and> calories b \<noteq> None \<and> 0 < spec_daysBetween a b"

definition spec_pair :: "entry \<Rightarrow> entry \<Rightarrow> real \<times> real" where
  "spec_pair a b =
     ((the (calories a) + the (calories b)) / 2, (weight b - weight a) / spec_daysBetween a b)"

definition spec_validPairs :: "entry list \<Rightarrow> (real \<times> real) list" where
  "spec_validPairs es =
     concat (map (\<lambda>i. map (\<lambda>j. spec_pair (es ! i) (es ! j))
                        (filter (\<lambda>j. spec_validPair (es ! i) (es ! j)) [Suc i..<length es]))
                 [0..<length es])"

definition spec_mean :: "real list \<Rightarrow> real" where
  "spec_mean vs = sum_list vs / real (length vs)"

definition spec_Sxx :: "(real \<times> real) list \<Rightarrow> real" where
  "spec_Sxx ps = (\<Sum>p\<leftarrow>ps. (fst p - spec_mean (map fst ps))\<^sup>2)"

definition spec_Sxy :: "(real \<times> real) list \<Rightarrow> real" where
  "spec_Sxy ps = (\<Sum>p\<leftarrow>ps. (fst p - spec_mean (map fst ps)) * (snd p - spec_mean (map snd ps)))"

definition spec_slope :: "(real \<times> real) list \<Rightarrow> real" where
  "spec_slope ps = spec_Sxy ps / spec_Sxx ps"

definition spec_intercept :: "(real \<times> real) list \<Rightarrow> real" where
  "spec_intercept ps = spec_mean (map snd ps) - spec_slope ps * spec_mean (map fst ps)"

text \<open>A pair of the code as a point, and the points of row \<open>i\<close> of the specification.\<close>

definition pairTuple :: "pair \<Rightarrow> real \<times> real" where
  "pairTuple p = (avgCalories p, weightRate p)"

definition rowPairs :: "entry list \<Rightarrow> nat \<Rightarrow> (real \<times> real) list" where
  "rowPairs es i = map (\<lambda>j. spec_pair (es ! i) (es ! j))
                        (filter (\<lambda>j. spec_validPair (es ! i) (es ! j)) [Suc i..<length es])"

text \<open>A log of three entries with calories, two days apart.\<close>

definition log3 :: "entry list" where
  "log3 = [\<lparr>date = ymd 2024 1 1, weight = 70, calories = Some 2300\<rparr>,
           \<lparr>date = ymd 2024 1 3, weight = 70.4, calories = Some 2600\<rparr>,
           \<lparr>date = ymd 2024 1 5, weight = 70.9, calories = Some 2900\<rparr>]"

subsection \<open>The estimator in rounded arithmetic\<close>

text \<open>
  The guards \<open>denominator === 0\<close> and \<open>slope === 0\<close> test computed values, and a computed
  value is a rounded one: sums and products that cancel exactly over the reals need not
  cancel in the program. So the estimator is also modelled with its rounding: the result of
  every arithmetic operation passes through \<open>rnd\<close>, which maps the exact result to the
  number that is stored, a finite value or an infinity on overflow. Nothing is assumed of
  \<open>rnd\<close>, so what is proved of this model holds of every rounding, that of the program
  included; with \<open>rnd = Fin\<close> it is the exact arithmetic of the previous subsection. An
  operation with a non-finite operand, and a division by zero, follow the rules of the
  numbers of the program.

  The day gap stays exact: a timestamp is a whole number of milliseconds, a multiple of
  \<open>DAY_MS\<close>, and such values are subtracted and divided without rounding. The square
  \<open>v ** 2\<close> is taken as the rounded product \<open>v * v\<close>; it enters the R-squared only.
\<close>

definition rounded :: "(real \<Rightarrow> number) \<Rightarrow> number \<Rightarrow> number" where
  "rounded rnd v = (case v of Fin r \<Rightarrow> rnd r | _ \<Rightarrow> v)"

record roundedPair =
  rp_calories :: number
  rp_weightRate :: number

fun pairsFromRounded :: "(real \<Rightarrow> number) \<Rightarrow> entry \<Rightarrow> real \<Rightarrow> entry list \<Rightarrow> roundedPair list" where
  "pairsFromRounded rnd cur cc [] = []"
| "pairsFromRounded rnd cur cc (nxt # rest) =
     (case calories nxt of
        None \<Rightarrow> pairsFromRounded rnd cur cc rest
      | Some cn \<Rightarrow>
          let days = real_of_int (getTime (date nxt) - getTime (date cur)) / real_of_int DAY_MS in
          if days \<le> 0 then pairsFromRounded rnd cur cc rest
          else
            let weightRate = rounded rnd (rounded rnd (Fin (weight nxt) - Fin (weight cur)) / Fin days);
                avgCalories = rounded rnd (rounded rnd (Fin cc + Fin cn) / Fin 2)
            in \<lparr>rp_calories = avgCalories, rp_weightRate = weightRate\<rparr>
                 # pairsFromRounded rnd cur cc rest)"

fun allPairsRounded :: "(real \<Rightarrow> number) \<Rightarrow> entry list \<Rightarrow> roundedPair list" where
  "allPairsRounded rnd [] = []"
| "allPairsRounded rnd (cur # rest) =
     (case calories cur of
        None \<Rightarrow> allPairsRounded rnd rest
      | Some cc \<Rightarrow> pairsFromRounded rnd cur cc rest @ allPairsRounded rnd rest)"

record roundedEstimate =
  re_empirical :: "number option"
  re_maintenance :: "number option"
  re_r2 :: "number option"
  re_intervals :: nat

definition noRoundedEstimate :: "nat \<Rightarrow> roundedEstimate" where
  "noRoundedEstimate k =
     \<lparr>re_empirical = None, re_maintenance = None, re_r2 = None, re_intervals = k\<rparr>"

definition calculateEmpiricalKcalPerKgRounded :: "(real \<Rightarrow> number) \<Rightarrow> entry list \<Rightarrow> roundedEstimate" where
  "calculateEmpiricalKcalPerKgRounded rnd entries =
     (let pairs = allPairsRounded rnd (sortByDate entries);
          intervals = length pairs
      in if intervals < 3 then noRoundedEstimate intervals
      else
        let x = map rp_calories pairs;
            y = map rp_weightRate pairs;
            n = Fin (real (length x));
            sumX = foldl (\<lambda>s v. rounded rnd (s + v)) (Fin 0) x;
            sumY = foldl (\<lambda>s v. rounded rnd (s + v)) (Fin 0) y;
            sumXY = foldl (\<lambda>s (idx, v). rounded rnd (s + rounded rnd (v * item y idx))) (Fin 0)
                      (enumerate 0 x);
            sumXX = foldl (\<lambda>s v. rounded rnd (s + rounded rnd (v * v))) (Fin 0) x;
            denominator = rounded rnd (rounded rnd (n * sumXX) - rounded rnd (sumX * sumX))
        in if denominator = Fin 0 then noRoundedEstimate intervals
        else
          let slope = rounded rnd (rounded rnd (rounded rnd (n * sumXY) - rounded rnd (sumX * sumY))
                                   / denominator)
          in if slope = Fin 0 then noRoundedEstimate intervals
          else
            let intercept = rounded rnd (rounded rnd (sumY - rounded rnd (slope * sumX)) / n);
                meanY = rounded rnd (sumY / n);
                ssTot = foldl (\<lambda>s v. rounded rnd (s + rounded rnd (pow2 (rounded rnd (v - meanY)))))
                          (Fin 0) y;
                ssRes = foldl (\<lambda>s (idx, v).
                           rounded rnd (s + rounded rnd (pow2 (rounded rnd
                             (v - rounded rnd (rounded rnd (slope * item x idx) + intercept))))))
                          (Fin 0) (enumerate 0 y);
                r2 = (if ssTot = Fin 0 then Fin 0 else rounded rnd (Fin 1 - rounded rnd (ssRes / ssTot)))
            in \<lparr>re_empirical = Some (Math_abs (rounded rnd (Fin 1 / slope))),
                re_maintenance = Some (rounded rnd (- intercept / slope)),
                re_r2 = Some r2, re_intervals = intervals\<rparr>)"

text \<open>
  The specification's wording in the same arithmetic: the point of a valid pair, the valid
  pairs \<open>i < j\<close> of the date-ordered log, and the least-squares line through a list of
  points by the normal equations, slope \<open>(n Sxy - Sx Sy) / (n Sxx - Sx Sx)\<close> and
  intercept \<open>(Sy - slope Sx) / n\<close> over the sums \<open>Sx\<close>, \<open>Sy\<close>, \<open>Sxy\<close>, \<open>Sxx\<close> of the
  coordinates and of their products, each sum taken from left to right.
\<close>

definition spec_roundedPoint :: "(real \<Rightarrow> number) \<Rightarrow> entry \<Rightarrow> entry \<Rightarrow> number \<times> number" where
  "spec_roundedPoint rnd a b =
     (rounded rnd (rounded rnd (Fin (the (calories a)) + Fin (the (calories b))) / Fin 2),
      rounded rnd (rounded rnd (Fin (weight b) - Fin (weight a)) / Fin (spec_daysBetween a b)))"

definition spec_roundedPairs :: "(real \<Rightarrow> number) \<Rightarrow> entry list \<Rightarrow> (number \<times> number) list" where
  "spec_roundedPairs rnd es =
     concat (map (\<lambda>i. map (\<lambda>j. spec_roundedPoint rnd (es ! i) (es ! j))
                        (filter (\<lambda>j. spec_validPair (es ! i) (es ! j)) [Suc i..<length es]))
                 [0..<length es])"

definition spec_roundedSum :: "(real \<Rightarrow> number) \<Rightarrow> number list \<Rightarrow> number" where
  "spec_roundedSum rnd vs = foldl (\<lambda>s v. rounded rnd (s + v)) (Fin 0) vs"

definition spec_roundedDenominator :: "(real \<Rightarrow> number) \<Rightarrow> (number \<times> number) list \<Rightarrow> number" where
  "spec_roundedDenominator rnd ps =
     (let n = Fin (real (length ps));
          sx = spec_roundedSum rnd (map fst ps);
          sxx = spec_roundedSum rnd (map (\<lambda>p. rounded rnd (fst p * fst p)) ps)
      in rounded rnd (rounded rnd (n * sxx) - rounded rnd (sx * sx)))"

definition spec_roundedSlope :: "(real \<Rightarrow> number) \<Rightarrow> (number \<times> number) list \<Rightarrow> number" where
  "spec_roundedSlope rnd ps =
     (let n = Fin (real (length ps));
          sx = spec_roundedSum rnd (map fst ps);
          sy = spec_roundedSum rnd (map snd ps);
          sxy = spec_roundedSum rnd (map (\<lambda>p. rounded rnd (fst p * snd p)) ps)
      in rounded rnd (rounded rnd (rounded rnd (n * sxy) - rounded rnd (sx * sy))
                      / spec_roundedDenominator rnd ps))"

definition spec_roundedIntercept :: "(real \<Rightarrow> number) \<Rightarrow> (number \<times> number) list \<Rightarrow> number" where
  "spec_roundedIntercept rnd ps =
     (let n = Fin (real (length ps));
          sx = spec_roundedSum rnd (map fst ps);
          sy = spec_roundedSum rnd (map snd ps)
      in rounded rnd (rounded rnd (sy - rounded rnd (spec_roundedSlope rnd ps * sx)) / n))"

text \<open>A pair of the rounded code as a point, and the points of row \<open>i\<close> of the specification.\<close>

definition roundedTuple :: "roundedPair \<Rightarrow> number \<times> number" where
  "roundedTuple p = (rp_calories p, rp_weightRate p)"

definition roundedRow :: "(real \<Rightarrow> number) \<Rightarrow> entry list \<Rightarrow> nat \<Rightarrow> (number \<times> number) list" where
  "roundedRow rnd es i = map (\<lambda>j. spec_roundedPoint rnd (es ! i) (es ! j))
                              (filter (\<lambda>j. spec_validPair (es ! i) (es ! j)) [Suc i..<length es])"

text \<open>
  A coarse decimal rounding, to run the rounded estimator on: a result below 100 in absolute
  value is kept, a larger one is rounded to the nearest multiple of 10, of 100 from 1000 on
  and of 1000 from 10000 on. And a log of three consecutive days with the same calories.
\<close>

definition twoDigits :: "real \<Rightarrow> number" where
  "twoDigits r =
     (if \<bar>r\<bar> < 100 then Fin r
      else let g = (if \<bar>r\<bar> < 1000 then 10 else if \<bar>r\<bar> < 10000 then 100 else 1000)
           in Fin (g * real_of_int \<lfloor>r / g + 1 / 2\<rfloor>))"

definition equalCaloriesLog :: "entry list" where
  "equalCaloriesLog = [\<lparr>date = ymd 2024 1 1, weight = 70, calories = Some 25\<rparr>,
                       \<lparr>date = ymd 2024 1 2, weight = 71, calories = Some 25\<rparr>,
                       \<lparr>date = ymd 2024 1 3, weight = 73, calories = Some 25\<rparr>]"

section \<open>Components known from the specification only\<close>

text \<open>
  The component exports \<open>calculateEmpiricalKcalPerKgHelper\<close> and \<open>computeIntakeNotice\<close>,
  and its tests call them, but their bodies are not part of the sources at hand. They are
  modelled here from the specification's description, over the pairs and the regression
  line of the empirical estimator above.
\<close>

subsection \<open>The richer empirical estimator\<close>

datatype Stability = Stable | Noisy | Insufficient

record RichEstimate = EmpiricalEstimate +
  empiricalCI :: "(real \<times> real) option"
  stability :: Stability

text \<open>
  Modelled from the spec: the confidence interval of the regression slope, which the missing
  \<open>calculateEmpiricalKcalPerKgHelper\<close> computes. The specification gives the form
  \<open>slope +- z * SE\<close> with \<open>SE = sqrt(MSE / SSx)\<close> and \<open>n - 2\<close> degrees of freedom;
  an interval straddles zero when it contains zero.
\<close>

definition spec_slopeSE :: "(real \<times> real) list \<Rightarrow> real" where
  "spec_slopeSE ps =
     (let mse = (\<Sum>p\<leftarrow>ps. (snd p - (spec_intercept ps + spec_slope ps * fst p))\<^sup>2)
                / (real (length ps) - 2)
      in sqrt (mse / spec_Sxx ps))"

definition spec_slopeCI :: "ConfidenceLevel \<Rightarrow> (real \<times> real) list \<Rightarrow> real \<times> real" where
  "spec_slopeCI conf ps =
     (spec_slope ps - zScores conf * spec_slopeSE ps, spec_slope ps + zScores conf * spec_slopeSE ps)"

definition straddlesZero :: "real \<times> real \<Rightarrow> bool" where
  "straddlesZero ci \<longleftrightarrow> fst ci \<le> 0 \<and> 0 \<le> snd ci"

text \<open>
  Modelled from the spec: \<open>calculateEmpiricalKcalPerKgHelper\<close>, missing from the sources.
  It extends the result of the simpler estimator (its "reduced view") by an interval on the
  kcal/kg value, the slope interval carried through the reciprocal, and by a stability
  label: \<open>insufficient\<close> with no interval when there are fewer than 3 valid pairs (or no
  estimate at all) or when the slope interval straddles zero; \<open>noisy\<close> when the half-width
  of the kcal/kg interval exceeds the fraction \<open>wide\<close> of the point value; \<open>stable\<close>
  otherwise. The fraction \<open>wide\<close> is left open by the specification and is a parameter.
\<close>

definition calculateEmpiricalKcalPerKgHelper :: "real \<Rightarrow> entry list \<Rightarrow> ConfidenceLevel \<Rightarrow> RichEstimate" where
  "calculateEmpiricalKcalPerKgHelper wide entries conf =
     (let base = calculateEmpiricalKcalPerKg entries;
          ps = map pairTuple (allPairs (sortByDate entries));
          slopeCI = spec_slopeCI conf ps
      in case empirical base of
           None \<Rightarrow> EmpiricalEstimate.extend base \<lparr>empiricalCI = None, stability = Insufficient\<rparr>
         | Some k \<Rightarrow>
             if straddlesZero slopeCI
             then EmpiricalEstimate.extend base \<lparr>empiricalCI = None, stability = Insufficient\<rparr>
             else
               let lo = min \<bar>1 / fst slopeCI\<bar> \<bar>1 / snd slopeCI\<bar>;
                   hi = max \<bar>1 / fst slopeCI\<bar> \<bar>1 / snd slopeCI\<bar>;
                   halfWidth = (hi - lo) / 2
               in EmpiricalEstimate.extend base
                    \<lparr>empiricalCI = Some (lo, hi),
                     stability = (if halfWidth > wide * k then Noisy else Stable)\<rparr>)"

text \<open>A log whose weight stays flat while the calories vary.\<close>

definition flatLog :: "entry list" where
  "flatLog = [\<lparr>date = ymd 2024 1 1, weight = 70, calories = Some 2000\<rparr>,
              \<lparr>date = ymd 2024 1 3, weight = 70, calories = Some 2500\<rparr>,
              \<lparr>date = ymd 2024 1 5, weight = 70, calories = Some 3000\<rparr>]"

subsection \<open>The intake notice\<close>

datatype Direction =
  gain_larger_than_expected | gain_despite_deficit | loss_despite_surplus | loss_larger_than_expected

record IntakeNotice =
  direction :: Direction
  suggestedAdjustment :: real

text \<open>
  Modelled from the spec: the quantities that the missing \<open>computeIntakeNotice\<close> derives
  from the log itself: the days of data (last date minus first date plus one), the observed
  weight-change rate (the least-squares slope of weight against elapsed days), and the
  best available kcal/kg (the empirical value if stable, else the constant 7700).
\<close>

definition spec_daysOfData :: "entry list \<Rightarrow> int" where
  "spec_daysOfData es =
     (case sortByDate es of [] \<Rightarrow> 0 | e0 # rest \<Rightarrow> date (last (e0 # rest)) - date e0 + 1)"

definition spec_observedRate :: "entry list \<Rightarrow> real" where
  "spec_observedRate es =
     (case sortByDate es of
        [] \<Rightarrow> 0
      | e0 # rest \<Rightarrow> spec_slope (map (\<lambda>e. (real_of_int (date e - date e0), weight e)) (e0 # rest)))"

definition bestKcalPerKg :: "RichEstimate \<Rightarrow> real" where
  "bestKcalPerKg emp =
     (case empirical emp of
        Some k \<Rightarrow> if stability emp = Stable then k else KCAL_PER_KG
      | None \<Rightarrow> KCAL_PER_KG)"

text \<open>
  Modelled from the spec: \<open>computeIntakeNotice\<close>, missing from the sources. No notice with
  fewer than \<open>MIN_DAYS_FOR_INFERENCE\<close> days of data, without an inference or an average
  intake, or when the observed rate is within the noise band; the band is left open by the
  specification and is the parameter \<open>withinNoise\<close>. Otherwise the direction crosses the
  sign expected from the calories (average intake against the inferred maintenance) with
  the sign of the observed rate, and the suggested adjustment is the gap between the
  observed and the expected rate, converted by the best available kcal/kg. The two
  inference components are passed in, as the tests pass stubs.
\<close>

definition computeIntakeNotice ::
  "(CaloricInference \<Rightarrow> RichEstimate \<Rightarrow> real \<Rightarrow> real \<Rightarrow> bool)
   \<Rightarrow> entry list \<Rightarrow> ConfidenceLevel
   \<Rightarrow> (entry list \<Rightarrow> ConfidenceLevel \<Rightarrow> CaloricInference option)
   \<Rightarrow> (entry list \<Rightarrow> RichEstimate) \<Rightarrow> IntakeNotice option" where
  "computeIntakeNotice withinNoise entries conf inferenceFn empFn =
     (if spec_daysOfData entries < int MIN_DAYS_FOR_INFERENCE then None
      else
        case (inferenceFn entries conf, getAverageIntake entries) of
          (Some inference, Some avgIntake) \<Rightarrow>
            (case maintenanceCalories inference of
               Fin maint \<Rightarrow>
                 let emp = empFn entries;
                     kcalPerKg = bestKcalPerKg emp;
                     observed = spec_observedRate entries;
                     expected = (avgIntake - maint) / kcalPerKg
                 in if withinNoise inference emp observed expected then None
                    else Some
                      \<lparr>direction =
                         (if 0 < observed
                          then (if avgIntake < maint then gain_despite_deficit
                                else gain_larger_than_expected)
                          else (if maint < avgIntake then loss_despite_surplus
                                else loss_larger_than_expected)),
                       suggestedAdjustment = (observed - expected) * kcalPerKg\<rparr>
             | _ \<Rightarrow> None)
        | _ \<Rightarrow> None)"

text \<open>
  The stubs of the component's tests (a maintenance of 2500 kcal, 7700 kcal/kg), a noise
  band of 0.015 kg per day, and a log that gains 0.02 kg per day on 2000 kcal.
\<close>

definition deficitLog :: "entry list" where
  "deficitLog = [\<lparr>date = ymd 2024 1 1, weight = 70, calories = Some 2000\<rparr>,
                 \<lparr>date = ymd 2024 1 8, weight = 70.14, calories = Some 2000\<rparr>,
                 \<lparr>date = ymd 2024 1 15, weight = 70.28, calories = Some 2000\<rparr>]"

definition baseInference :: CaloricInference where
  "baseInference =
     \<lparr>maintenanceCalories = Fin 2500, confidenceInterval = (Fin 2400, Fin 2600),
      weightChangeRate = Fin 0, weightChangeRateCI = (Fin 0, Fin 0), slopeCI = (Fin 0, Fin 0),
      ci_intercept = Fin 0, daysOfData = Fin 30, ci_r2 = Fin (1 / 2), trendData = []\<rparr>"

definition baseEmp :: RichEstimate where
  "baseEmp = \<lparr>empirical = Some 7700, maintenance = Some 2500, ee_r2 = Some (1 / 2), intervals = 10,
               empiricalCI = None, stability = Insufficient\<rparr>"

definition inferenceStub :: "entry list \<Rightarrow> ConfidenceLevel \<Rightarrow> CaloricInference option" where
  "inferenceStub es conf = Some baseInference"

definition empStub :: "entry list \<Rightarrow> RichEstimate" where
  "empStub es = baseEmp"

definition noiseBand :: "CaloricInference \<Rightarrow> RichEstimate \<Rightarrow> real \<Rightarrow> real \<Rightarrow> bool" where
  "noiseBand inference emp observed expected \<longleftrightarrow> \<bar>observed - expected\<bar> < 3 / 200"

section \<open>Period aggregator\<close>

text \<open>
  The calendar reads of \<open>Date\<close> that \<open>getGroupInfo\<close> makes, with the local time zone
  taken to be UTC: the year and the month index (0 to 11) of a day number, the weekday
  (0 is Sunday; day 0, 1970-01-01, was a Thursday), and \<open>new Date(year, monthIndex, day)\<close>,
  which normalises a month index past 11 into the next year and counts the day from the
  first of the month (day 0 is the last day of the month before).
\<close>

definition civil :: "date \<Rightarrow> int \<times> int \<times> int" where
  "civil d =
     (let z = d + 719468;
          era = z div 146097;
          doe = z mod 146097;
          yoe = (doe - doe div 1460 + doe div 36524 - doe div 146096) div 365;
          doy = doe - (365 * yoe + yoe div 4 - yoe div 100);
          mp = (5 * doy + 2) div 153;
          dd = doy - (153 * mp + 2) div 5 + 1;
          m = (if mp < 10 then mp + 3 else mp - 9);
          y = yoe + era * 400
      in (if m \<le> 2 then y + 1 else y, m, dd))"

definition getFullYear :: "date \<Rightarrow> int" where
  "getFullYear d = fst (civil d)"

definition getMonth :: "date \<Rightarrow> int" where
  "getMonth d = fst (snd (civil d)) - 1"

definition getDay :: "date \<Rightarrow> int" where
  "getDay d = (d + 4) mod 7"

definition newDate :: "int \<Rightarrow> int \<Rightarrow> int \<Rightarrow> date" where
  "newDate year monthIndex day = ymd (year + monthIndex div 12) (monthIndex mod 12 + 1) 1 + (day - 1)"

definition startOfWeek :: "date \<Rightarrow> date" where
  "startOfWeek d = (let day = getDay d; diff = (day + 6) mod 7 in d - diff)"

text \<open>
  The key of a bucket is a string built from its start; the model keeps what the string is
  built from. The label is the text shown for the bucket.
\<close>

datatype groupKey = Key1w date | Key2w date | Key1m int int | Key2m int int

datatype groupLabel = Label1w date | Label2w date date | Label1m int int | Label2m int int int int

record groupInfo =
  key :: groupKey
  label :: groupLabel
  startDate :: date
  endDate :: date

definition getGroupInfo :: "date \<Rightarrow> StatsGroupingOption \<Rightarrow> groupInfo" where
  "getGroupInfo d grouping =
     (let weekStart = startOfWeek d in
      case grouping of
        G1w \<Rightarrow>
          let end = (getTime weekStart + 7 * DAY_MS - DAY_MS) div DAY_MS
          in \<lparr>key = Key1w weekStart, label = Label1w weekStart, startDate = weekStart, endDate = end\<rparr>
      | G2w \<Rightarrow>
          let weeksSinceEpoch = getTime weekStart div (7 * DAY_MS);
              bucketStartWeek = (weeksSinceEpoch div 2) * 2;
              startDate = (bucketStartWeek * 7 * DAY_MS) div DAY_MS;
              endDate = (getTime startDate + 14 * DAY_MS - DAY_MS) div DAY_MS
          in \<lparr>key = Key2w startDate, label = Label2w startDate endDate,
              startDate = startDate, endDate = endDate\<rparr>
      | G1m \<Rightarrow>
          let startDate = newDate (getFullYear d) (getMonth d) 1;
              endDate = newDate (getFullYear d) (getMonth d + 1) 0
          in \<lparr>key = Key1m (getFullYear startDate) (getMonth startDate + 1),
              label = Label1m (getFullYear startDate) (getMonth startDate + 1),
              startDate = startDate, endDate = endDate\<rparr>
      | G2m \<Rightarrow>
          let bucketMonth = (getMonth d div 2) * 2;
              startDate = newDate (getFullYear d) bucketMonth 1;
              endDate = newDate (getFullYear d) (bucketMonth + 2) 0
          in \<lparr>key = Key2m (getFullYear startDate) bucketMonth,
              label = Label2m (getFullYear startDate) (bucketMonth + 1)
                        (getFullYear endDate) (getMonth endDate + 1),
              startDate = startDate, endDate = endDate\<rparr>)"

record weeklyGroup =
  weekStart :: groupLabel
  data :: "entry list"
  startDateMs :: int

text \<open>
  The \<open>Map\<close> from keys to groups, in insertion order: an entry joins the group of its key,
  which is created empty just before when the key is new.
\<close>

fun pushToGroup :: "groupKey \<Rightarrow> entry \<Rightarrow> (groupKey \<times> weeklyGroup) list \<Rightarrow> (groupKey \<times> weeklyGroup) list" where
  "pushToGroup k e [] = []"
| "pushToGroup k e ((k', g) # rest) =
     (if k' = k then (k', g\<lparr>data := data g @ [e]\<rparr>) # rest else (k', g) # pushToGroup k e rest)"

definition groupEntry ::
  "StatsGroupingOption \<Rightarrow> (groupKey \<times> weeklyGroup) list \<Rightarrow> entry \<Rightarrow> (groupKey \<times> weeklyGroup) list" where
  "groupEntry grouping grouped e =
     (let info = getGroupInfo (date e) grouping;
          grouped' = (if key info \<notin> fst ` set grouped
                      then grouped @ [(key info, \<lparr>weekStart = label info, data = [],
                                                   startDateMs = getTime (startDate info)\<rparr>)]
                      else grouped)
      in pushToGroup (key info) e grouped')"

definition weeklyGroups :: "entry list \<Rightarrow> StatsGroupingOption \<Rightarrow> weeklyGroup list" where
  "weeklyGroups entries grouping =
     (let grouped = foldl (groupEntry grouping) [] entries
      in sort_key startDateMs (map (\<lambda>(k, g). g\<lparr>data := sortByDate (data g)\<rparr>) grouped))"

definition computeMean :: "real list \<Rightarrow> number" where
  "computeMean arr = Fin (foldl (\<lambda>a b. a + b) 0 arr) / Fin (real (length arr))"

definition computeSD :: "real list \<Rightarrow> number \<Rightarrow> number" where
  "computeSD arr mean =
     (let sumSq = foldl (\<lambda>sum v. sum + pow2 (Fin v - mean)) (Fin 0) arr
      in Math_sqrt (sumSq / (Fin (real (length arr)) - Fin 1)))"

definition computeCI :: "number \<Rightarrow> number \<Rightarrow> nat \<Rightarrow> ConfidenceLevel \<Rightarrow> number \<times> number" where
  "computeCI mean sd n conf =
     (let z = Fin (zScores conf);
          se = sd / Math_sqrt (Fin (real n));
          margin = z * se
      in (mean - margin, mean + margin))"

record WeeklyStats =
  ws_weekStart :: groupLabel
  ws_startDateMs :: int
  mean :: number
  sd :: number
  ci :: "number \<times> number"
  dataLength :: nat
  change :: "number option"
  changeCI :: "(number \<times> number) option"

text \<open>One step of the \<open>forEach\<close> that builds \<open>results\<close>: \<open>res\<close> holds the buckets done so far.\<close>

definition pushStats :: "ConfidenceLevel \<Rightarrow> WeeklyStats list \<Rightarrow> weeklyGroup \<Rightarrow> WeeklyStats list" where
  "pushStats conf res g =
     (let weights = map weight (data g);
          mean = computeMean weights;
          sd = (if length weights > 1 then computeSD weights mean else Fin 0);
          ci = (if length weights > 1 then computeCI mean sd (length weights) conf else (mean, mean));
          entry = \<lparr>ws_weekStart = weekStart g, ws_startDateMs = startDateMs g, mean = mean, sd = sd,
                   ci = ci, dataLength = length weights, change = None, changeCI = None\<rparr>
      in case res of
           [] \<Rightarrow> [entry]
         | _ # _ \<Rightarrow>
             let prev = last res;
                 gain = mean - WeeklyStats.mean prev;
                 se_combined = Math_sqrt
                   ((if length weights > 1 then pow2 sd / Fin (real (length weights)) else Fin 0)
                    + (if dataLength prev > 1 then pow2 (WeeklyStats.sd prev) / Fin (real (dataLength prev))
                       else Fin 0));
                 z = Fin (zScores conf);
                 margin = z * se_combined
             in res @ [entry\<lparr>change := Some gain, changeCI := Some (gain - margin, gain + margin)\<rparr>])"

definition weeklyResults :: "entry list \<Rightarrow> StatsGroupingOption \<Rightarrow> ConfidenceLevel \<Rightarrow> WeeklyStats list" where
  "weeklyResults entries grouping conf = foldl (pushStats conf) [] (weeklyGroups entries grouping)"

text \<open>The number of entries of the log whose date lies in the range of a bucket.\<close>

definition entriesInRange :: "entry list \<Rightarrow> groupInfo \<Rightarrow> nat" where
  "entriesInRange entries info =
     length (filter (\<lambda>e. startDate info \<le> date e \<and> date e \<le> endDate info) entries)"

text \<open>A log of a single entry, on a Thursday.\<close>

definition thursdayLog :: "entry list" where
  "thursdayLog = [\<lparr>date = ymd 2024 1 4, weight = 70, calories = None\<rparr>]"

section \<open>Body composition estimator\<close>

text \<open>
  A measurement row; of its fields the estimator reads the date and the body-fat
  percentage only (the circumference fields are left out). The percentage is what
  \<open>parseFloat\<close> returned when the row was added, so it is a number of the program, as is
  the starting body fat parsed from its text field (\<open>None\<close>: the field is empty).
\<close>

record BodyMeasurement =
  m_date :: date
  bodyFat :: "number option"

record BodyCompositionEstimate =
  e_date :: date
  e_weight :: real
  bodyFatPercentage :: number
  fatMass :: number
  leanMass :: number
  bodyFatPercentageCI :: "number \<times> number"
  isEstimated :: bool

record CalibrationFactor =
  cf_date :: date
  muscleGainFactor :: number
  fatLossFactor :: number

text \<open>A number used as a condition, or on the left of \<open>||\<close>: zero and \<open>NaN\<close> are falsy.\<close>

definition truthy :: "number \<Rightarrow> bool" where
  "truthy v \<longleftrightarrow> v \<noteq> NaN \<and> v \<noteq> Fin 0"

text \<open>\<open>e.calories\<close> used as a condition: present and not zero.\<close>

definition hasCalories :: "entry \<Rightarrow> bool" where
  "hasCalories e = (case calories e of Some c \<Rightarrow> c \<noteq> 0 | None \<Rightarrow> False)"

text \<open>\<open>getEmpiricalKcalPerKg\<close> (its second argument is not used): \<open>empirical || null\<close>.\<close>

definition getEmpiricalKcalPerKg :: "entry list \<Rightarrow> real option" where
  "getEmpiricalKcalPerKg entries =
     (case empirical (calculateEmpiricalKcalPerKg entries) of
        Some k \<Rightarrow> if k \<noteq> 0 then Some k else None
      | None \<Rightarrow> None)"

record fatLean =
  fatPct :: real
  fatPctLow :: real
  fatPctHigh :: real
  leanPct :: real
  leanPctLow :: real
  leanPctHigh :: real

definition getFatLeanPercent :: "real \<Rightarrow> real \<times> real \<Rightarrow> fatLean" where
  "getFatLeanPercent empKcal empKcalCI =
     (let fatPct = (empKcal - 2000) / (7700 - 2000);
          fatPctLow = (fst empKcalCI - 2000) / (7700 - 2000);
          fatPctHigh = (snd empKcalCI - 2000) / (7700 - 2000)
      in \<lparr>fatPct = max 0 (min 1 fatPct),
          fatPctLow = max 0 (min 1 fatPctLow),
          fatPctHigh = max 0 (min 1 fatPctHigh),
          leanPct = 1 - max 0 (min 1 fatPct),
          leanPctLow = 1 - max 0 (min 1 fatPctHigh),
          leanPctHigh = 1 - max 0 (min 1 fatPctLow)\<rparr>)"

text \<open>
  The variables that the loop of \<open>calculateBodyComposition\<close> updates; \<open>newCalibration\<close>
  is its local copy \<open>newCalibrationFactor\<close> of the calibration factor.
\<close>

record loopState =
  currentFatMass :: number
  currentLeanMass :: number
  lastKnownFatPercentage :: number
  lastCalibrationDate :: date
  results :: "BodyCompositionEstimate list"
  newCalibration :: CalibrationFactor
  shouldUpdateCalibration :: bool

text \<open>
  What the calibration block derives from the calories and weights between the last anchor
  and a measured entry: nothing when no entry in that range has calories or the range has
  fewer than two entries; a \<open>TypeError\<close> if the anchor entry were not found (the read
  \<open>find(...)!.weight\<close>); otherwise the average surplus, the weight change, the theoretical
  fat change and the fat-mass change.
\<close>

datatype evidence = NoEvidence | TypeError | Evidence number real number number

definition calibrationEvidence ::
  "entry list \<Rightarrow> entry list \<Rightarrow> ConfidenceLevel \<Rightarrow> number \<Rightarrow> entry
   \<Rightarrow> date \<Rightarrow> BodyCompositionEstimate list \<Rightarrow> number \<Rightarrow> evidence" where
  "calibrationEvidence entries sortedEntries confidence startFatMass entry
     lastDate resultsSoFar fatMassNow =
     (let daysBetween = Fin (real_of_int (getTime (date entry) - getTime lastDate)
                             / real_of_int (1000 * 60 * 60 * 24));
          inRange = (\<lambda>e. lastDate \<le> date e \<and> date e \<le> date entry);
          counted = filter (\<lambda>e. inRange e \<and> hasCalories e) sortedEntries;
          totalCalories = foldl (\<lambda>t e. t + (case calories e of Some c \<Rightarrow> c | None \<Rightarrow> 0)) 0 counted;
          countDays = length counted
      in if countDays > 0 then
           let avgDailyCalories = totalCalories / real countDays;
               estimatedKcalPerKg =
                 (if length entries \<ge> MIN_DAYS_FOR_INFERENCE \<and> getAverageIntake entries \<noteq> None
                  then getEmpiricalKcalPerKg entries else None);
               kcalPerKg = (case estimatedKcalPerKg of Some k \<Rightarrow> k | None \<Rightarrow> 7700)
           in case calculateCaloricInference (filter inRange sortedEntries) confidence of
                None \<Rightarrow> NoEvidence
              | Some inference \<Rightarrow>
                  let maintenanceCalories =
                        Fin (case getAverageIntake (filter inRange sortedEntries) of Some a \<Rightarrow> a | None \<Rightarrow> 0)
                        - weightChangeRate inference * Fin kcalPerKg;
                      avgSurplus = Fin avgDailyCalories - maintenanceCalories;
                      totalSurplus = avgSurplus * daysBetween;
                      theoreticalFatChange = totalSurplus / Fin kcalPerKg
                  in case find (\<lambda>e. date e = lastDate) sortedEntries of
                       None \<Rightarrow> TypeError
                     | Some anchor \<Rightarrow>
                         let weightChange = weight entry - weight anchor;
                             anchorFatMass =
                               (case find (\<lambda>r. e_date r = lastDate) resultsSoFar of
                                  Some r \<Rightarrow> if truthy (fatMass r) then fatMass r else startFatMass
                                | None \<Rightarrow> startFatMass);
                             fatMassChange = fatMassNow - anchorFatMass
                         in Evidence avgSurplus weightChange theoreticalFatChange fatMassChange
         else NoEvidence)"

text \<open>
  The update of the local calibration copy from that evidence: in a surplus with a weight
  gain the muscle factor, in a deficit with a weight loss the fat-loss factor, each averaged
  with the value the copy holds.
\<close>

definition applyCalibration ::
  "number \<Rightarrow> real \<Rightarrow> number \<Rightarrow> number \<Rightarrow> entry \<Rightarrow> loopState \<Rightarrow> loopState" where
  "applyCalibration avgSurplus weightChange theoreticalFatChange fatMassChange entry s =
     (if Fin 0 < avgSurplus then
        (if 0 < weightChange \<and> Fin 0 < theoreticalFatChange then
           let newMuscleFactor =
                 Math_max2 (Fin 0) (Math_min2 (Fin 0.7) (Fin 1 - fatMassChange / theoreticalFatChange))
           in s\<lparr>newCalibration :=
                  (newCalibration s)
                    \<lparr>cf_date := date entry,
                     muscleGainFactor := (muscleGainFactor (newCalibration s) + newMuscleFactor) / Fin 2\<rparr>,
                shouldUpdateCalibration := True\<rparr>
         else s)
      else if avgSurplus < Fin 0 then
        (if weightChange < 0 \<and> theoreticalFatChange < Fin 0 then
           let newFatLossFactor =
                 Math_max2 (Fin 0.5) (Math_min2 (Fin 1.0) (fatMassChange / theoreticalFatChange))
           in s\<lparr>newCalibration :=
                  (newCalibration s)
                    \<lparr>cf_date := date entry,
                     fatLossFactor := (fatLossFactor (newCalibration s) + newFatLossFactor) / Fin 2\<rparr>,
                shouldUpdateCalibration := True\<rparr>
         else s)
      else s)"

definition calibrate ::
  "entry list \<Rightarrow> entry list \<Rightarrow> ConfidenceLevel \<Rightarrow> number \<Rightarrow> entry \<Rightarrow> loopState \<Rightarrow> loopState option" where
  "calibrate entries sortedEntries confidence startFatMass entry s =
     (case calibrationEvidence entries sortedEntries confidence startFatMass entry
             (lastCalibrationDate s) (results s) (currentFatMass s) of
        NoEvidence \<Rightarrow> Some s
      | TypeError \<Rightarrow> None
      | Evidence avgSurplus weightChange theoreticalFatChange fatMassChange \<Rightarrow>
          Some (applyCalibration avgSurplus weightChange theoreticalFatChange fatMassChange entry s))"

text \<open>The entry of a date that has a body-fat measurement: snap to it, then calibrate.\<close>

definition measuredEntry ::
  "entry list \<Rightarrow> entry list \<Rightarrow> ConfidenceLevel \<Rightarrow> number \<Rightarrow> number
   \<Rightarrow> entry option \<Rightarrow> entry \<Rightarrow> loopState \<Rightarrow> loopState option" where
  "measuredEntry entries sortedEntries confidence startFatMass actualBodyFat prevEntry entry s =
     (let actualFatMass = Fin (weight entry) * (actualBodyFat / Fin 100);
          actualLeanMass = Fin (weight entry) - actualFatMass;
          s1 = s\<lparr>currentFatMass := actualFatMass,
                 currentLeanMass := actualLeanMass,
                 lastKnownFatPercentage := actualBodyFat,
                 results := results s @
                   [\<lparr>e_date = date entry, e_weight = weight entry,
                     bodyFatPercentage = actualBodyFat,
                     fatMass = actualFatMass, leanMass = actualLeanMass,
                     bodyFatPercentageCI = (actualBodyFat - Fin 1, actualBodyFat + Fin 1),
                     isEstimated = False\<rparr>]\<rparr>
      in case prevEntry of
           Some _ \<Rightarrow>
             map_option (\<lambda>s2. s2\<lparr>lastCalibrationDate := date entry\<rparr>)
               (calibrate entries sortedEntries confidence startFatMass entry s1)
         | None \<Rightarrow> Some s1)"

text \<open>An entry without measurement whose own and previous calories are logged.\<close>

definition estimatedEntry :: "entry list \<Rightarrow> entry \<Rightarrow> entry \<Rightarrow> loopState \<Rightarrow> loopState" where
  "estimatedEntry entries prev entry s =
     (let weightChange = weight entry - weight prev;
          empiricalRes = calculateEmpiricalKcalPerKg entries;
          kcalPerKgUsed = (case empirical empiricalRes of
                             Some k \<Rightarrow> if k \<noteq> 0 then k else 7700 | None \<Rightarrow> 7700);
          fatPct = fatPct (getFatLeanPercent kcalPerKgUsed (kcalPerKgUsed, kcalPerKgUsed));
          leanPct = 1 - fatPct;
          fatMassChange = weightChange * fatPct;
          leanMassChange = weightChange * leanPct;
          fat = Math_max2 (Fin (weight entry * 0.03)) (currentFatMass s + Fin fatMassChange);
          lean = Math_max2 (Fin (weight entry * 0.5)) (currentLeanMass s + Fin leanMassChange);
          bodyFatPercentage = (fat / Fin (weight entry)) * Fin 100;
          daysSinceCalibration =
            Fin (real_of_int (getTime (date entry) - getTime (lastCalibrationDate s))
                 / real_of_int (1000 * 60 * 60 * 24));
          confidenceMargin = Fin 1 + daysSinceCalibration * Fin 0.05
      in s\<lparr>currentFatMass := fat,
           currentLeanMass := lean,
           results := results s @
             [\<lparr>e_date = date entry, e_weight = weight entry,
               bodyFatPercentage = bodyFatPercentage,
               fatMass = fat, leanMass = lean,
               bodyFatPercentageCI =
                 (Math_max2 (Fin 3) (bodyFatPercentage - confidenceMargin),
                  Math_min2 (bodyFatPercentage + confidenceMargin) (Fin 60)),
               isEstimated = True\<rparr>]\<rparr>)"

text \<open>An entry without measurement and without calories on one side: the last known percentage.\<close>

definition carriedEntry :: "entry \<Rightarrow> loopState \<Rightarrow> loopState" where
  "carriedEntry entry s =
     (let bodyFatPercentage = lastKnownFatPercentage s;
          fatMass = Fin (weight entry) * (bodyFatPercentage / Fin 100);
          leanMass = Fin (weight entry) - fatMass
      in s\<lparr>results := results s @
             [\<lparr>e_date = date entry, e_weight = weight entry,
               bodyFatPercentage = bodyFatPercentage,
               fatMass = fatMass, leanMass = leanMass,
               bodyFatPercentageCI = (bodyFatPercentage - Fin 3, bodyFatPercentage + Fin 3),
               isEstimated = True\<rparr>]\<rparr>)"

text \<open>The first entry, when it has no measurement: the starting body fat.\<close>

definition firstEntry :: "number \<Rightarrow> number \<Rightarrow> number \<Rightarrow> entry \<Rightarrow> loopState \<Rightarrow> loopState" where
  "firstEntry startBodyFat startFatMass startLeanMass entry s =
     s\<lparr>results := results s @
         [\<lparr>e_date = date entry, e_weight = weight entry,
           bodyFatPercentage = startBodyFat,
           fatMass = startFatMass, leanMass = startLeanMass,
           bodyFatPercentageCI = (startBodyFat - Fin 1, startBodyFat + Fin 1),
           isEstimated = False\<rparr>]\<rparr>"

text \<open>The body of the loop: the three-way branch on measurement and previous entry.\<close>

definition processEntry ::
  "entry list \<Rightarrow> entry list \<Rightarrow> BodyMeasurement list \<Rightarrow> ConfidenceLevel \<Rightarrow> number \<Rightarrow> number \<Rightarrow> number
   \<Rightarrow> entry option \<Rightarrow> entry \<Rightarrow> loopState \<Rightarrow> loopState option" where
  "processEntry entries sortedEntries bodyFatMeasurements confidence startBodyFat startFatMass startLeanMass
     prevEntry entry s =
     (case Option.bind (find (\<lambda>m. m_date m = date entry) bodyFatMeasurements) bodyFat of
        Some actualBodyFat \<Rightarrow>
          measuredEntry entries sortedEntries confidence startFatMass actualBodyFat prevEntry entry s
      | None \<Rightarrow>
          (case prevEntry of
             Some prev \<Rightarrow>
               if hasCalories entry \<and> hasCalories prev then Some (estimatedEntry entries prev entry s)
               else Some (carriedEntry entry s)
           | None \<Rightarrow> Some (firstEntry startBodyFat startFatMass startLeanMass entry s)))"

text \<open>The \<open>for\<close> loop over the sorted entries, with \<open>prevEntry\<close> the entry before the current one.\<close>

fun forEachEntry ::
  "(entry option \<Rightarrow> entry \<Rightarrow> loopState \<Rightarrow> loopState option) \<Rightarrow> entry option \<Rightarrow> entry list
   \<Rightarrow> loopState \<Rightarrow> loopState option" where
  "forEachEntry body prevEntry [] s = Some s"
| "forEachEntry body prevEntry (entry # rest) s =
     (case body prevEntry entry s of
        None \<Rightarrow> None
      | Some s' \<Rightarrow> forEachEntry body (Some entry) rest s')"

text \<open>
  \<open>calculateBodyComposition\<close>, as a function of the five values of its dependency list.
  \<open>None\<close> stands for the \<open>TypeError\<close> of the calibration block.
\<close>

record composition =
  estimates :: "BodyCompositionEstimate list"
  newCalibrationFactor :: "CalibrationFactor option"

definition calculateBodyComposition ::
  "entry list \<Rightarrow> BodyMeasurement list \<Rightarrow> number option \<Rightarrow> CalibrationFactor \<Rightarrow> ConfidenceLevel
   \<Rightarrow> composition option" where
  "calculateBodyComposition entries measurements startingBodyFat calibrationFactor confidence =
     (case (sortByDate entries, startingBodyFat) of
        ([], _) \<Rightarrow> Some \<lparr>estimates = [], newCalibrationFactor = None\<rparr>
      | (_, None) \<Rightarrow> Some \<lparr>estimates = [], newCalibrationFactor = None\<rparr>
      | (first # others, Some startBodyFat) \<Rightarrow>
          let sortedEntries = first # others;
              bodyFatMeasurements = sort_key m_date (filter (\<lambda>m. bodyFat m \<noteq> None) measurements);
              startWeight = Fin (weight first);
              startFatMass = startWeight * (startBodyFat / Fin 100);
              startLeanMass = startWeight - startFatMass;
              initial = \<lparr>currentFatMass = startFatMass,
                         currentLeanMass = startLeanMass,
                         lastKnownFatPercentage = startBodyFat,
                         lastCalibrationDate = date first,
                         results = [],
                         newCalibration = calibrationFactor,
                         shouldUpdateCalibration = False\<rparr>
          in map_option
               (\<lambda>s. \<lparr>estimates = results s,
                      newCalibrationFactor =
                        (if shouldUpdateCalibration s then Some (newCalibration s) else None)\<rparr>)
               (forEachEntry
                  (processEntry entries sortedEntries bodyFatMeasurements confidence
                     startBodyFat startFatMass startLeanMass)
                  None sortedEntries initial))"

text \<open>Two loop states that differ at most in the local calibration copy.\<close>

definition agree :: "loopState \<Rightarrow> loopState \<Rightarrow> bool" where
  "agree a b \<longleftrightarrow>
     currentFatMass a = currentFatMass b \<and> currentLeanMass a = currentLeanMass b \<and>
     lastKnownFatPercentage a = lastKnownFatPercentage b \<and>
     lastCalibrationDate a = lastCalibrationDate b \<and> results a = results b \<and>
     shouldUpdateCalibration a = shouldUpdateCalibration b"

text \<open>
  The state of the component that the modelled computations read or write. The form
  fields, the goals and the pagination counters are left out: nothing modelled here
  touches them.
\<close>

record appState =
  entries :: "entry list"
  measurements :: "BodyMeasurement list"
  confidence :: ConfidenceLevel
  trendWindow :: TrendWindowOption
  statsGrouping :: StatsGroupingOption
  startingBodyFat :: "number option"
  bodyCompositionHistory :: "BodyCompositionEstimate list"
  calibrationFactor :: CalibrationFactor

text \<open>The memoised value, recomputed from the five state variables of its dependency list.\<close>

definition bodyCompositionMemo :: "appState \<Rightarrow> composition option" where
  "bodyCompositionMemo st =
     calculateBodyComposition (entries st) (measurements st) (startingBodyFat st)
       (calibrationFactor st) (confidence st)"

text \<open>
  The effect that runs after each recomputation: it stores a non-empty series in the
  history and commits a proposed calibration factor to the state, which recomputes the
  memoised value.
\<close>

definition commitEffect :: "appState \<Rightarrow> appState option" where
  "commitEffect st =
     (case bodyCompositionMemo st of
        None \<Rightarrow> None
      | Some result \<Rightarrow>
          let st1 = (if length (estimates result) > 0
                     then st\<lparr>bodyCompositionHistory := estimates result\<rparr> else st)
          in Some (case newCalibrationFactor result of
                     Some c \<Rightarrow> st1\<lparr>calibrationFactor := c\<rparr>
                   | None \<Rightarrow> st1))"

text \<open>The calibration factor that the effect would commit, if any.\<close>

definition proposedCalibration :: "appState \<Rightarrow> CalibrationFactor option" where
  "proposedCalibration st = Option.bind (bodyCompositionMemo st) newCalibrationFactor"

text \<open>
  A state with two entries a day apart, both with calories, and a body-fat measurement on
  the second day; the calibration factor holds its default values 0.3 and 0.9.
\<close>

definition measuredLog :: "entry list" where
  "measuredLog = [\<lparr>date = ymd 2024 1 1, weight = 80, calories = Some 2000\<rparr>,
                  \<lparr>date = ymd 2024 1 2, weight = 82, calories = Some 2000\<rparr>]"

definition measuredState :: appState where
  "measuredState =
     \<lparr>entries = measuredLog,
      measurements = [\<lparr>m_date = ymd 2024 1 2, bodyFat = Some (Fin 25)\<rparr>],
      confidence = C95, trendWindow = WAll, statsGrouping = G1w,
      startingBodyFat = Some (Fin 25),
      bodyCompositionHistory = [],
      calibrationFactor = \<lparr>cf_date = ymd 2024 1 2, muscleGainFactor = Fin 0.3, fatLossFactor = Fin 0.9\<rparr>\<rparr>"

section \<open>The estimator run on the arrays of the component\<close>

text \<open>
  The state variables \<open>entries\<close> and \<open>measurements\<close> hold arrays and \<open>calibrationFactor\<close>
  holds an object; the estimator reaches all three by reference, and \<open>Array.prototype.sort\<close>
  sorts the array it is called on in place. Whether a second run sees what the first one
  saw therefore depends on which arrays the run sorts and which objects it writes. The
  store makes this explicit: a reference is an address, the store maps the addresses of
  arrays and objects to their contents, and \<open>nextRef\<close> is the first address not yet in use.
  The elements of an array are never written by the estimator, so an array is the list of
  the values of its elements.
\<close>

type_synonym ref = nat

record store =
  entryArrays :: "ref \<Rightarrow> entry list"
  measurementArrays :: "ref \<Rightarrow> BodyMeasurement list"
  calibrationObjects :: "ref \<Rightarrow> CalibrationFactor"
  nextRef :: ref

text \<open>\<open>[...a]\<close>: a new array with the elements of \<open>a\<close>.\<close>

definition spreadEntries :: "ref \<Rightarrow> store \<Rightarrow> ref \<times> store" where
  "spreadEntries a \<sigma> =
     (nextRef \<sigma>,
      \<sigma>\<lparr>entryArrays := (entryArrays \<sigma>)(nextRef \<sigma> := entryArrays \<sigma> a), nextRef := Suc (nextRef \<sigma>)\<rparr>)"

text \<open>\<open>a.sort((a, b) => a.date.localeCompare(b.date))\<close>: the array \<open>a\<close> itself is reordered.\<close>

definition sortEntries :: "ref \<Rightarrow> store \<Rightarrow> store" where
  "sortEntries a \<sigma> = \<sigma>\<lparr>entryArrays := (entryArrays \<sigma>)(a := sortByDate (entryArrays \<sigma> a))\<rparr>"

text \<open>\<open>a.filter(p)\<close>: a new array with the elements of \<open>a\<close> that satisfy \<open>p\<close>.\<close>

definition filterMeasurements :: "(BodyMeasurement \<Rightarrow> bool) \<Rightarrow> ref \<Rightarrow> store \<Rightarrow> ref \<times> store" where
  "filterMeasurements p a \<sigma> =
     (nextRef \<sigma>,
      \<sigma>\<lparr>measurementArrays := (measurementArrays \<sigma>)(nextRef \<sigma> := filter p (measurementArrays \<sigma> a)),
        nextRef := Suc (nextRef \<sigma>)\<rparr>)"

definition sortMeasurements :: "ref \<Rightarrow> store \<Rightarrow> store" where
  "sortMeasurements a \<sigma> =
     \<sigma>\<lparr>measurementArrays := (measurementArrays \<sigma>)(a := sort_key m_date (measurementArrays \<sigma> a))\<rparr>"

text \<open>\<open>{...o}\<close>: a new object with the fields of \<open>o\<close>.\<close>

definition spreadCalibration :: "ref \<Rightarrow> store \<Rightarrow> ref \<times> store" where
  "spreadCalibration a \<sigma> =
     (nextRef \<sigma>,
      \<sigma>\<lparr>calibrationObjects := (calibrationObjects \<sigma>)(nextRef \<sigma> := calibrationObjects \<sigma> a),
        nextRef := Suc (nextRef \<sigma>)\<rparr>)"

text \<open>
  The five values of the dependency list as the run receives them: the two arrays and the
  calibration object by reference, the starting body fat (a string) and the confidence
  level by value.
\<close>

record dependencies =
  entriesRef :: ref
  measurementsRef :: ref
  startingBodyFatText :: "number option"
  calibrationFactorRef :: ref
  confidenceLevel :: ConfidenceLevel

text \<open>
  One run of \<open>calculateBodyComposition\<close> on the store. The sorted entries are a sorted
  copy, the body-fat measurements a sorted filter result, and the local calibration a copy
  of the object of the state; the loop then reads these, and \<open>entries\<close> itself, from the
  store that the copies and the sorts have left. Inside the loop the local calibration is
  only ever replaced by a newly built object, never written, so the loop keeps its value.
  The helpers that the loop calls on \<open>entries\<close> write to no array but a copy of their own
  (\<open>calculateEmpiricalKcalPerKg\<close> sorts \<open>[...entries]\<close>); they are the functions of the
  sections above, applied to the contents of the array.
\<close>

definition bodyCompositionRun :: "dependencies \<Rightarrow> store \<Rightarrow> composition option \<times> store" where
  "bodyCompositionRun d \<sigma> =
     (if length (entryArrays \<sigma> (entriesRef d)) = 0 \<or> startingBodyFatText d = None
      then (Some \<lparr>estimates = [], newCalibrationFactor = None\<rparr>, \<sigma>)
      else
        let (sortedEntries, \<sigma>1) = spreadEntries (entriesRef d) \<sigma>;
            \<sigma>2 = sortEntries sortedEntries \<sigma>1;
            (bodyFatMeasurements, \<sigma>3) = filterMeasurements (\<lambda>m. bodyFat m \<noteq> None) (measurementsRef d) \<sigma>2;
            \<sigma>4 = sortMeasurements bodyFatMeasurements \<sigma>3;
            startWeight = Fin (weight (hd (entryArrays \<sigma>4 sortedEntries)));
            startBodyFat = the (startingBodyFatText d);
            startFatMass = startWeight * (startBodyFat / Fin 100);
            startLeanMass = startWeight - startFatMass;
            firstDate = date (hd (entryArrays \<sigma>4 sortedEntries));
            (newCalibrationFactor, \<sigma>5) = spreadCalibration (calibrationFactorRef d) \<sigma>4;
            initial = \<lparr>currentFatMass = startFatMass,
                       currentLeanMass = startLeanMass,
                       lastKnownFatPercentage = startBodyFat,
                       lastCalibrationDate = firstDate,
                       results = [],
                       newCalibration = calibrationObjects \<sigma>5 newCalibrationFactor,
                       shouldUpdateCalibration = False\<rparr>
        in (map_option
              (\<lambda>s. \<lparr>estimates = results s,
                     newCalibrationFactor =
                       (if shouldUpdateCalibration s then Some (newCalibration s) else None)\<rparr>)
              (forEachEntry
                 (processEntry (entryArrays \<sigma>5 (entriesRef d)) (entryArrays \<sigma>5 sortedEntries)
                    (measurementArrays \<sigma>5 bodyFatMeasurements) (confidenceLevel d)
                    startBodyFat startFatMass startLeanMass)
                 None (entryArrays \<sigma>5 sortedEntries) initial),
            \<sigma>5))"

text \<open>
  The inputs of a run: the contents of the two arrays and of the calibration object, and
  the two values. A store is well formed for a dependency list when its three references
  are in use.
\<close>

definition inputs ::
  "dependencies \<Rightarrow> store
   \<Rightarrow> entry list \<times> BodyMeasurement list \<times> number option \<times> CalibrationFactor \<times> ConfidenceLevel" where
  "inputs d \<sigma> =
     (entryArrays \<sigma> (entriesRef d), measurementArrays \<sigma> (measurementsRef d), startingBodyFatText d,
      calibrationObjects \<sigma> (calibrationFactorRef d), confidenceLevel d)"

definition wellFormed :: "dependencies \<Rightarrow> store \<Rightarrow> bool" where
  "wellFormed d \<sigma> \<longleftrightarrow>
     entriesRef d < nextRef \<sigma> \<and> measurementsRef d < nextRef \<sigma> \<and> calibrationFactorRef d < nextRef \<sigma>"

text \<open>
  A store holding the measured log, its measurement and the default calibration factor at
  the addresses 0, 1 and 2, and an unrelated array at address 3.
\<close>

definition measuredStore :: store where
  "measuredStore =
     \<lparr>entryArrays = (\<lambda>_. [])(0 := measuredLog, 3 := rev measuredLog),
      measurementArrays = (\<lambda>_. [])(1 := [\<lparr>m_date = ymd 2024 1 2, bodyFat = Some (Fin 25)\<rparr>]),
      calibrationObjects =
        (\<lambda>_. \<lparr>cf_date = ymd 2024 1 2, muscleGainFactor = Fin 0.3, fatLossFactor = Fin 0.9\<rparr>),
      nextRef = 4\<rparr>"

definition measuredDependencies :: dependencies where
  "measuredDependencies =
     \<lparr>entriesRef = 0, measurementsRef = 1, startingBodyFatText = Some (Fin 25),
      calibrationFactorRef = 2, confidenceLevel = C95\<rparr>"

section \<open>Properties of the statistics primitives\<close>

lemma linearRegression_short:
  "length x < 2 \<Longrightarrow> linearRegression x y = \<lparr>slope = Fin 0, intercept = Fin 0, r2 = Fin 0\<rparr>"
  by (simp add: linearRegression_def)

lemma foldl_plus_Fin:
  "foldl (\<lambda>s v. s + v) (Fin a) (map Fin vs) = Fin (a + sum_list vs)"
  by (induction vs arbitrary: a) (simp_all add: add.assoc)

lemma sum_numbers_Fin: "sum_numbers (map Fin vs) = Fin (sum_list vs)"
  using foldl_plus_Fin [of 0 vs] by (simp add: sum_numbers_def)

lemma foldl_squares_Fin:
  "foldl (\<lambda>a b. a + b * b) (Fin a) (map Fin vs) = Fin (a + (\<Sum>v\<leftarrow>vs. v * v))"
  by (induction vs arbitrary: a) (simp_all add: add.assoc)

lemma foldl_products_constant:
  "k + m \<le> length ys \<Longrightarrow>
   foldl (\<lambda>a (i, b). a + b * item (map Fin ys) i) (Fin a) (enumerate k (replicate m (Fin c)))
   = Fin (a + c * sum_list (take m (drop k ys)))"
proof (induction m arbitrary: k a)
  case 0
  then show ?case by simp
next
  case (Suc m)
  from Suc.prems have k: "k < length ys" by simp
  then have d: "drop k ys = ys ! k # drop (Suc k) ys"
    by (simp add: Cons_nth_drop_Suc)
  from Suc.prems have "Suc k + m \<le> length ys" by simp
  from Suc.IH [OF this] show ?case
    using k by (simp add: item_def d algebra_simps)
qed

text \<open>
  With two or more finite points that all have the same \<open>x\<close>, the slope is \<open>0 / 0\<close>:
  the regression returns \<open>NaN\<close> whatever the \<open>y\<close> values are.
\<close>

lemma linearRegression_constant_x:
  assumes "2 \<le> n" and "length ys = n"
  shows "slope (linearRegression (replicate n (Fin c)) (map Fin ys)) = NaN"
proof -
  have x: "replicate n (Fin c) = map Fin (replicate n c)" by simp
  have sumX: "sum_numbers (replicate n (Fin c)) = Fin (real n * c)"
    unfolding x sum_numbers_Fin by (simp add: sum_list_replicate)
  have sumXX: "foldl (\<lambda>a b. a + b * b) (Fin 0) (replicate n (Fin c)) = Fin (real n * (c * c))"
    unfolding x using foldl_squares_Fin [of 0 "replicate n c"] by (simp add: sum_list_replicate)
  have sumXY: "foldl (\<lambda>a (i, b). a + b * item (map Fin ys) i) (Fin 0) (enumerate 0 (replicate n (Fin c)))
               = Fin (c * sum_list ys)"
    using foldl_products_constant [of 0 n ys 0 c] assms(2) by simp
  show ?thesis
    using assms(1)
    by (simp add: linearRegression_def Let_def sumX sumXX sumXY sum_numbers_Fin minus_number_def
        algebra_simps)
qed


section \<open>Properties of the trend inference\<close>

lemma calculateCaloricInference_short:
  "length es < 2 \<Longrightarrow> calculateCaloricInference es conf = None"
  by (simp add: calculateCaloricInference_def)

lemma elapsedDays_two:
  "elapsedDays [\<lparr>date = ymd 2024 1 1, weight = 70, calories = None\<rparr>,
                \<lparr>date = ymd 2024 1 2, weight = 71, calories = None\<rparr>] = [Fin 0, Fin 1]"
  by (simp add: elapsedDays_def getTime_def DAY_MS_def ymd_def)

lemma linearRegression_two:
  "linearRegression [Fin 0, Fin 1] [Fin 70, Fin 71] = \<lparr>slope = Fin 1, intercept = Fin 70, r2 = Fin 1\<rparr>"
  by (simp add: linearRegression_def sum_numbers_def item_def pow2_def minus_number_def Let_def)

lemma slopeSE_two: "slopeSE [Fin 0, Fin 1] [Fin 70, Fin 71] (Fin 1) = NaN"
  by (simp add: slopeSE_def sum_numbers_def item_def pow2_def minus_number_def)

lemma NaN_absorbs:
  "a + NaN = NaN" "NaN + a = NaN" "a * NaN = NaN" "NaN * a = NaN" "a - NaN = NaN" "NaN - a = NaN"
  by (cases a; simp add: minus_number_def)+

lemma elapsedDays_pair:
  "elapsedDays [e0, e1] = [Fin 0, Fin (real_of_int (date e1 - date e0))]"
  by (simp add: elapsedDays_def getTime_def DAY_MS_def diff_divide_distrib)

lemma slope_pair:
  "slope (linearRegression [Fin 0, Fin d] [Fin w0, Fin w1])
   = (if d = 0 then NaN else Fin ((w1 - w0) / d))"
  by (simp add: linearRegression_def Let_def sum_numbers_def item_def minus_number_def
      power2_eq_square field_simps)

lemma slopeSE_pair_NaN:
  "slopeSE [Fin 0, Fin d] [Fin w0, Fin w1] (slope (linearRegression [Fin 0, Fin d] [Fin w0, Fin w1]))
   = NaN"
proof (cases "d = 0")
  case True
  then show ?thesis
    unfolding slope_pair
    by (simp add: slopeSE_def Let_def sum_numbers_def item_def minus_number_def pow2_def)
next
  case False
  show ?thesis
    unfolding slope_pair
    using False
    apply (simp add: slopeSE_def Let_def sum_numbers_def item_def minus_number_def pow2_def)
    apply (simp add: field_simps)
    done
qed

text \<open>
  For every log of exactly two entries, whatever their dates and weights, both ends of the
  slope interval are \<open>NaN\<close>.
\<close>

lemma calculateCaloricInference_pair_NaN:
  "map_option slopeCI (calculateCaloricInference [e0, e1] conf) = Some (NaN, NaN)"
  unfolding calculateCaloricInference_def elapsedDays_pair
  by (simp add: Let_def slopeSE_pair_NaN NaN_absorbs)

text \<open>
  Claim C4, on two entries, 2024-01-01 at 70 kg and 2024-01-02 at 71 kg: the claim asks
  for a guarded standard error of 0 and a degenerate slope interval; the inference is not
  null, its residual sum 0 is divided by \<open>n - 2 = 0\<close>, the standard error is \<open>NaN\<close>
  and both ends of the slope interval are \<open>NaN\<close>, at every confidence level.
\<close>

theorem calculateCaloricInference_two_points_NaN:
  "slopeSE [Fin 0, Fin 1] [Fin 70, Fin 71] (Fin 1) = NaN \<and>
   map_option slopeCI
     (calculateCaloricInference
        [\<lparr>date = ymd 2024 1 1, weight = 70, calories = None\<rparr>,
         \<lparr>date = ymd 2024 1 2, weight = 71, calories = None\<rparr>] conf) = Some (NaN, NaN)"
  by (simp add: calculateCaloricInference_def elapsedDays_two linearRegression_two slopeSE_two
      minus_number_def Let_def)

section \<open>Properties of the entry log\<close>

lemma distinct_dates_sortByDate:
  "distinct (map date (sortByDate es)) = distinct (map date es)"
proof -
  have "mset (map date (sortByDate es)) = mset (map date es)"
    by (simp add: sortByDate_def)
  then show ?thesis
    by (metis distinct_count_atmost_1 set_mset_mset)
qed

lemma sorted_sortByDate: "sorted (map date (sortByDate es))"
  by (simp add: sortByDate_def)

lemma filter_date_sortByDate:
  "filter (\<lambda>e. date e = d) (sortByDate es) = filter (\<lambda>e. date e = d) es"
  by (simp add: sortByDate_def sort_key_stable)

lemma filter_sortByDate:
  "filter P (sortByDate es) = sortByDate (filter P es)"
  by (simp add: sortByDate_def filter_sort)

lemma insertEntry_own:
  "filter (\<lambda>e. date e = date n) (insertEntry es n) = [n]"
proof -
  have "filter (\<lambda>e. date e = date n) (filter (\<lambda>e. date e \<noteq> date n) es) = []"
    by (induction es) auto
  then show ?thesis
    by (simp add: insertEntry_def filter_date_sortByDate)
qed

lemma insertEntry_others:
  "filter (\<lambda>e. date e \<noteq> date n) (insertEntry es n) = sortByDate (filter (\<lambda>e. date e \<noteq> date n) es)"
  by (simp add: insertEntry_def filter_sortByDate)

lemma insertEntry_sorted: "sorted (map date (insertEntry es n))"
  by (simp add: insertEntry_def sorted_sortByDate)

lemma insertEntry_distinct:
  "distinct (map date es) \<Longrightarrow> distinct (map date (insertEntry es n))"
  by (auto simp add: insertEntry_def distinct_dates_sortByDate distinct_map_filter)

lemma length_filter_other_dates:
  "distinct (map date es) \<Longrightarrow> d \<in> date ` set es \<Longrightarrow>
   Suc (length (filter (\<lambda>e. date e \<noteq> d) es)) = length es"
proof (induction es)
  case Nil
  then show ?case by simp
next
  case (Cons a es)
  show ?case
  proof (cases "date a = d")
    case True
    from Cons.prems(1) have notin: "date a \<notin> date ` set es" by simp
    have "\<forall>x\<in>set es. date x \<noteq> d"
    proof
      fix x assume "x \<in> set es"
      then have "date x \<in> date ` set es" by (rule imageI)
      with notin True show "date x \<noteq> d" by metis
    qed
    then have "filter (\<lambda>e. date e \<noteq> d) es = es" by (simp add: filter_id_conv)
    with True show ?thesis by simp
  next
    case False
    with Cons show ?thesis by auto
  qed
qed

lemma insertEntry_length:
  "distinct (map date es) \<Longrightarrow> date n \<in> date ` set es \<Longrightarrow> length (insertEntry es n) = length es"
  using length_filter_other_dates [of es "date n"]
  by (simp add: insertEntry_def sortByDate_def)

text \<open>
  Claim C8: a valid insert (a date, a positive finite weight, calories absent or positive
  and finite) never alerts, whether or not the date is already in the log. Afterwards the
  log holds exactly one entry for that date, the new one; the entries of the other dates
  are the old ones in date order; the log is in ascending date order; dates that were
  distinct stay distinct, and overwriting an existing date leaves the number of rows
  unchanged.
\<close>

theorem addEntry_last_write_wins:
  assumes "0 < w" and "\<forall>v. c = Some v \<longrightarrow> 0 < v"
  shows "\<exists>es'. addEntry es (Some d) (Some (Fin w)) (map_option Fin c) = Inr es' \<and>
           filter (\<lambda>e. date e = d) es' = [\<lparr>date = d, weight = w, calories = c\<rparr>] \<and>
           filter (\<lambda>e. date e \<noteq> d) es' = sortByDate (filter (\<lambda>e. date e \<noteq> d) es) \<and>
           sorted (map date es') \<and>
           (distinct (map date es) \<longrightarrow> distinct (map date es')) \<and>
           (distinct (map date es) \<and> d \<in> date ` set es \<longrightarrow> length es' = length es)"
proof -
  let ?n = "\<lparr>date = d, weight = w, calories = c\<rparr>"
  have run: "addEntry es (Some d) (Some (Fin w)) (map_option Fin c) = Inr (insertEntry es ?n)"
    using assms by (cases c) (simp_all add: addEntry_def)
  have "filter (\<lambda>e. date e = d) (insertEntry es ?n) = [?n]"
    using insertEntry_own [of ?n es] by simp
  moreover have "filter (\<lambda>e. date e \<noteq> d) (insertEntry es ?n) = sortByDate (filter (\<lambda>e. date e \<noteq> d) es)"
    using insertEntry_others [of ?n es] by simp
  moreover have "sorted (map date (insertEntry es ?n))"
    by (rule insertEntry_sorted)
  moreover have "distinct (map date es) \<longrightarrow> distinct (map date (insertEntry es ?n))"
    by (simp add: insertEntry_distinct)
  moreover have "distinct (map date es) \<and> d \<in> date ` set es \<longrightarrow> length (insertEntry es ?n) = length es"
    using insertEntry_length [of es ?n] by simp
  ultimately show ?thesis
    using run by simp
qed

definition log1 :: "entry list" where
  "log1 = [\<lparr>date = ymd 2024 1 1, weight = 70, calories = Some 2200\<rparr>,
           \<lparr>date = ymd 2024 1 2, weight = 72, calories = Some 2300\<rparr>]"

theorem addEntry_last_write_wins_witness:
  "(0::real) < 73 \<and> (0::real) < 2400 \<and>
   addEntry
     [\<lparr>date = ymd 2024 1 1, weight = 70, calories = Some 2200\<rparr>,
      \<lparr>date = ymd 2024 1 2, weight = 72, calories = Some 2300\<rparr>]
     (Some (ymd 2024 1 2)) (Some (Fin 73)) (Some (Fin 2400)) =
   Inr [\<lparr>date = ymd 2024 1 1, weight = 70, calories = Some 2200\<rparr>,
        \<lparr>date = ymd 2024 1 2, weight = 73, calories = Some 2400\<rparr>]"
  using addEntry_last_write_wins [of 73 "Some 2400"
      "[\<lparr>date = ymd 2024 1 1, weight = 70, calories = Some 2200\<rparr>,
        \<lparr>date = ymd 2024 1 2, weight = 72, calories = Some 2300\<rparr>]" "ymd 2024 1 2"]
  by (simp add: addEntry_def insertEntry_def ymd_def sortByDate_def)

section \<open>Properties of the empirical estimator\<close>

lemma days_eq:
  "(real_of_int (getTime b) - real_of_int (getTime a)) / real_of_int DAY_MS = real_of_int b - real_of_int a"
  by (simp add: getTime_def DAY_MS_def diff_divide_distrib)

lemma pairsFrom_filter:
  "calories cur = Some cc \<Longrightarrow>
   map pairTuple (pairsFrom cur cc rest) = map (spec_pair cur) (filter (spec_validPair cur) rest)"
  by (induction rest)
     (auto simp: days_eq spec_validPair_def spec_pair_def spec_daysBetween_def pairTuple_def Let_def
           split: option.splits)

lemma pairsFrom_none:
  "calories cur = None \<Longrightarrow> filter (spec_validPair cur) rest = []"
  by (induction rest) (auto simp: spec_validPair_def)

lemma filter_map_nth_from:
  "map (\<lambda>j. f (xs ! j)) (filter (\<lambda>j. P (xs ! j)) [k..<length xs]) = map f (filter P (drop k xs))"
proof -
  have "map (\<lambda>j. f (xs ! j)) (filter (\<lambda>j. P (xs ! j)) [k..<length xs])
        = map f (filter P (map (\<lambda>j. xs ! j) [k..<length xs]))"
    by (simp add: filter_map comp_def)
  also have "map (\<lambda>j. xs ! j) [k..<length xs] = drop k xs"
    by (metis drop_upt map_nth drop_map add_0)
  finally show ?thesis .
qed

lemma rowPairs_0:
  "rowPairs (e # es) 0 = map (spec_pair e) (filter (spec_validPair e) es)"
  using filter_map_nth_from [of "spec_pair e" "e # es" "spec_validPair e" "Suc 0"]
  by (simp add: rowPairs_def)

lemma rowPairs_Suc: "rowPairs (e # es) (Suc i) = rowPairs es i"
proof -
  have "[Suc (Suc i)..<Suc (length es)] = map Suc [Suc i..<length es]"
    by (simp add: map_Suc_upt)
  then show ?thesis
    by (simp add: rowPairs_def filter_map comp_def)
qed

lemma spec_validPairs_Cons:
  "spec_validPairs (e # es) = map (spec_pair e) (filter (spec_validPair e) es) @ spec_validPairs es"
proof -
  have "[0..<length (e # es)] = 0 # map Suc [0..<length es]"
    by (simp add: upt_conv_Cons map_Suc_upt del: upt_Suc)
  then have A: "spec_validPairs (e # es) = rowPairs (e # es) 0 @ concat (map (\<lambda>i. rowPairs (e # es) (Suc i)) [0..<length es])"
    unfolding spec_validPairs_def rowPairs_def by (simp add: comp_def del: upt_Suc)
  have B: "spec_validPairs es = concat (map (rowPairs es) [0..<length es])"
    unfolding spec_validPairs_def rowPairs_def by simp
  show ?thesis
    by (simp only: A B rowPairs_0 rowPairs_Suc)
qed

lemma allPairs_refines: "map pairTuple (allPairs es) = spec_validPairs es"
proof (induction es)
  case Nil
  show ?case by (simp add: spec_validPairs_def)
next
  case (Cons e es)
  show ?case
  proof (cases "calories e")
    case None
    then show ?thesis using Cons by (simp add: spec_validPairs_Cons pairsFrom_none)
  next
    case (Some cc)
    then show ?thesis using Cons by (simp add: spec_validPairs_Cons pairsFrom_filter)
  qed
qed

lemma foldl_plus_sum_list:
  "foldl (\<lambda>s v. s + f v) a vs = a + (\<Sum>v\<leftarrow>vs. (f v :: real))"
  by (induction vs arbitrary: a) simp_all

lemma foldl_enumerate_sum_list:
  "foldl (\<lambda>s (idx, v). s + g idx v) a (enumerate 0 vs)
   = a + (\<Sum>i\<leftarrow>[0..<length vs]. (g i (vs ! i) :: real))"
proof -
  have "foldl (\<lambda>s (idx, v). s + g idx v) a (enumerate 0 vs)
        = foldl (\<lambda>s t. s + (case t of (idx, v) \<Rightarrow> g idx v)) a (enumerate 0 vs)"
    by (simp add: case_prod_unfold)
  also have "\<dots> = a + (\<Sum>t\<leftarrow>enumerate 0 vs. case t of (idx, v) \<Rightarrow> g idx v)"
    by (rule foldl_plus_sum_list)
  also have "map (\<lambda>t. case t of (idx, v) \<Rightarrow> g idx v) (enumerate 0 vs) = map (\<lambda>i. g i (vs ! i)) [0..<length vs]"
    by (rule nth_equalityI) (simp_all add: nth_enumerate_eq)
  finally show ?thesis .
qed

lemma sum_over_indices:
  "(\<Sum>i\<leftarrow>[0..<length ps]. f (ps ! i)) = (\<Sum>p\<leftarrow>ps. (f p :: real))"
proof -
  have "map (\<lambda>i. f (ps ! i)) [0..<length ps] = map f ps"
    by (rule nth_equalityI) simp_all
  then show ?thesis by simp
qed

lemma sum_centered_products:
  "(\<Sum>p\<leftarrow>ps. (fst p - a) * (snd p - b))
   = (\<Sum>p\<leftarrow>ps. fst p * snd p) - a * (\<Sum>p\<leftarrow>ps. snd p) - b * (\<Sum>p\<leftarrow>ps. fst p)
     + real (length ps) * a * (b :: real)"
  by (induction ps) (simp_all add: algebra_simps)

lemma sum_centered_squares:
  "(\<Sum>p\<leftarrow>ps. (fst p - a)\<^sup>2)
   = (\<Sum>p\<leftarrow>ps. fst p * fst p) - 2 * a * (\<Sum>p\<leftarrow>ps. fst p) + real (length ps) * a * (a :: real)"
  by (induction ps) (simp_all add: algebra_simps power2_eq_square)

lemma n_Sxy:
  assumes "ps \<noteq> []"
  shows "real (length ps) * spec_Sxy ps
         = real (length ps) * (\<Sum>p\<leftarrow>ps. fst p * snd p) - (\<Sum>p\<leftarrow>ps. fst p) * (\<Sum>p\<leftarrow>ps. snd p)"
proof -
  have n: "real (length ps) \<noteq> 0" using assms by simp
  show ?thesis
    unfolding spec_Sxy_def spec_mean_def sum_centered_products
    using n by (simp add: field_simps comp_def)
qed

lemma n_Sxx:
  assumes "ps \<noteq> []"
  shows "real (length ps) * spec_Sxx ps
         = real (length ps) * (\<Sum>p\<leftarrow>ps. fst p * fst p) - (\<Sum>p\<leftarrow>ps. fst p) * (\<Sum>p\<leftarrow>ps. fst p)"
proof -
  have n: "real (length ps) \<noteq> 0" using assms by simp
  show ?thesis
    unfolding spec_Sxx_def spec_mean_def sum_centered_squares
    using n by (simp add: field_simps comp_def)
qed

lemma code_sumX:
  "foldl (\<lambda>s v. s + v) 0 (map avgCalories pairs) = (\<Sum>p\<leftarrow>map pairTuple pairs. fst p)"
  using foldl_plus_sum_list [of "\<lambda>v. v" 0 "map avgCalories pairs"]
  by (simp add: comp_def pairTuple_def)

lemma code_sumY:
  "foldl (\<lambda>s v. s + v) 0 (map weightRate pairs) = (\<Sum>p\<leftarrow>map pairTuple pairs. snd p)"
  using foldl_plus_sum_list [of "\<lambda>v. v" 0 "map weightRate pairs"]
  by (simp add: comp_def pairTuple_def)

lemma code_sumXX:
  "foldl (\<lambda>s v. s + v * v) 0 (map avgCalories pairs) = (\<Sum>p\<leftarrow>map pairTuple pairs. fst p * fst p)"
  using foldl_plus_sum_list [of "\<lambda>v. v * v" 0 "map avgCalories pairs"]
  by (simp add: comp_def pairTuple_def)

lemma code_sumXY:
  "foldl (\<lambda>s (idx, v). s + v * map weightRate pairs ! idx) 0 (enumerate 0 (map avgCalories pairs))
   = (\<Sum>p\<leftarrow>map pairTuple pairs. fst p * snd p)"
proof -
  have "map (\<lambda>i. map avgCalories pairs ! i * map weightRate pairs ! i) [0..<length (map avgCalories pairs)]
        = map (\<lambda>p. fst p * snd p) (map pairTuple pairs)"
    by (rule nth_equalityI) (simp_all add: pairTuple_def)
  then show ?thesis
    using foldl_enumerate_sum_list [of "\<lambda>idx v. v * map weightRate pairs ! idx" 0 "map avgCalories pairs"]
    by simp
qed

lemma empirical_code:
  fixes es :: "entry list"
  defines "ps \<equiv> map pairTuple (allPairs (sortByDate es))"
  defines "N \<equiv> real (length ps)"
  defines "D \<equiv> N * (\<Sum>p\<leftarrow>ps. fst p * fst p) - (\<Sum>p\<leftarrow>ps. fst p) * (\<Sum>p\<leftarrow>ps. fst p)"
  defines "b \<equiv> (N * (\<Sum>p\<leftarrow>ps. fst p * snd p) - (\<Sum>p\<leftarrow>ps. fst p) * (\<Sum>p\<leftarrow>ps. snd p)) / D"
  shows "intervals (calculateEmpiricalKcalPerKg es) = length ps"
    and "empirical (calculateEmpiricalKcalPerKg es)
         = (if length ps < 3 \<or> D = 0 \<or> b = 0 then None else Some \<bar>1 / b\<bar>)"
    and "maintenance (calculateEmpiricalKcalPerKg es)
         = (if length ps < 3 \<or> D = 0 \<or> b = 0 then None
            else Some (- (((\<Sum>p\<leftarrow>ps. snd p) - b * (\<Sum>p\<leftarrow>ps. fst p)) / N) / b))"
  unfolding calculateEmpiricalKcalPerKg_def Let_def code_sumX code_sumY code_sumXX code_sumXY
  by (simp_all add: noEstimate_def ps_def N_def D_def b_def)

lemma spec_regression_code:
  assumes "ps \<noteq> []"
  defines "N \<equiv> real (length ps)"
  defines "D \<equiv> N * (\<Sum>p\<leftarrow>ps. fst p * fst p) - (\<Sum>p\<leftarrow>ps. fst p) * (\<Sum>p\<leftarrow>ps. fst p)"
  defines "b \<equiv> (N * (\<Sum>p\<leftarrow>ps. fst p * snd p) - (\<Sum>p\<leftarrow>ps. fst p) * (\<Sum>p\<leftarrow>ps. snd p)) / D"
  shows "D = 0 \<longleftrightarrow> spec_Sxx ps = 0"
    and "b = spec_slope ps"
    and "((\<Sum>p\<leftarrow>ps. snd p) - b * (\<Sum>p\<leftarrow>ps. fst p)) / N = spec_intercept ps"
proof -
  have N: "N \<noteq> 0" using assms by simp
  have D: "D = N * spec_Sxx ps"
    unfolding D_def N_def using n_Sxx [OF assms(1)] by simp
  show "D = 0 \<longleftrightarrow> spec_Sxx ps = 0" using D N by simp
  have "b = (N * spec_Sxy ps) / (N * spec_Sxx ps)"
    unfolding b_def D unfolding N_def using n_Sxy [OF assms(1)] by simp
  then show b: "b = spec_slope ps"
    using N by (simp add: spec_slope_def)
  show "((\<Sum>p\<leftarrow>ps. snd p) - b * (\<Sum>p\<leftarrow>ps. fst p)) / N = spec_intercept ps"
    unfolding b spec_intercept_def spec_mean_def
    by (simp add: diff_divide_distrib comp_def N_def)
qed

lemma empirical_by_specification:
  fixes es :: "entry list"
  defines "ps \<equiv> spec_validPairs (sortByDate es)"
  defines "r \<equiv> calculateEmpiricalKcalPerKg es"
  shows "intervals r = length ps"
    and "empirical r
         = (if length ps < 3 \<or> spec_Sxx ps = 0 \<or> spec_slope ps = 0 then None
            else Some \<bar>1 / spec_slope ps\<bar>)"
    and "maintenance r
         = (if length ps < 3 \<or> spec_Sxx ps = 0 \<or> spec_slope ps = 0 then None
            else Some (- spec_intercept ps / spec_slope ps))"
proof -
  have ps: "map pairTuple (allPairs (sortByDate es)) = ps"
    by (simp add: ps_def allPairs_refines)
  note code = empirical_code [of es, unfolded ps]
  show i: "intervals r = length ps"
    unfolding r_def by (rule code(1))
  show "empirical r
         = (if length ps < 3 \<or> spec_Sxx ps = 0 \<or> spec_slope ps = 0 then None
            else Some \<bar>1 / spec_slope ps\<bar>)"
  proof (cases "ps = []")
    case True
    then show ?thesis unfolding r_def code(2) by simp
  next
    case False
    note spec = spec_regression_code [OF False]
    show ?thesis unfolding r_def code(2) spec(1) spec(2) by (rule refl)
  qed
  show "maintenance r
         = (if length ps < 3 \<or> spec_Sxx ps = 0 \<or> spec_slope ps = 0 then None
            else Some (- spec_intercept ps / spec_slope ps))"
  proof (cases "ps = []")
    case True
    then show ?thesis unfolding r_def code(3) by simp
  next
    case False
    note spec = spec_regression_code [OF False]
    note spec3 = spec(3) [unfolded spec(2)]
    show ?thesis unfolding r_def code(3) spec(1) spec(2) spec3 by (rule refl)
  qed
qed

text \<open>The log of three entries, under exact arithmetic.\<close>

lemma log3_pairs:
  "spec_validPairs (sortByDate log3) = [(2450, 1 / 5), (2600, 9 / 40), (2750, 1 / 4)]"
  unfolding allPairs_refines [symmetric]
  by (simp add: log3_def sortByDate_def ymd_def pairTuple_def getTime_def DAY_MS_def)

lemma log3_Sxx: "spec_Sxx [(2450, 1 / 5), (2600, 9 / 40), (2750, 1 / 4)] = 45000"
  by (simp add: spec_Sxx_def spec_mean_def power2_eq_square)

lemma log3_slope: "spec_slope [(2450, 1 / 5), (2600, 9 / 40), (2750, 1 / 4)] = 1 / 6000"
  by (simp add: spec_slope_def log3_Sxx) (simp add: spec_Sxy_def spec_mean_def)

lemma log3_intercept: "spec_intercept [(2450, 1 / 5), (2600, 9 / 40), (2750, 1 / 4)] = - 5 / 24"
  by (simp add: spec_intercept_def log3_slope) (simp add: spec_mean_def)

lemma log3_two_pairs:
  "spec_validPairs (sortByDate (take 2 log3)) = [(2450, 1 / 5)]"
  unfolding allPairs_refines [symmetric]
  by (simp add: log3_def sortByDate_def ymd_def pairTuple_def getTime_def DAY_MS_def)

lemma log3_empirical: "empirical (calculateEmpiricalKcalPerKg log3) = Some 6000"
  using empirical_by_specification(2) [of log3]
  by (simp add: log3_pairs log3_Sxx log3_slope)

section \<open>Properties of the empirical estimator in rounded arithmetic\<close>

lemma pairsFromRounded_filter:
  "calories cur = Some cc \<Longrightarrow>
   map roundedTuple (pairsFromRounded rnd cur cc rest)
   = map (spec_roundedPoint rnd cur) (filter (spec_validPair cur) rest)"
  by (induction rest)
     (auto simp: days_eq spec_validPair_def spec_roundedPoint_def spec_daysBetween_def
                 roundedTuple_def Let_def split: option.splits)

lemma roundedRow_0:
  "roundedRow rnd (e # es) 0 = map (spec_roundedPoint rnd e) (filter (spec_validPair e) es)"
  using filter_map_nth_from [of "spec_roundedPoint rnd e" "e # es" "spec_validPair e" "Suc 0"]
  by (simp add: roundedRow_def)

lemma roundedRow_Suc: "roundedRow rnd (e # es) (Suc i) = roundedRow rnd es i"
proof -
  have "[Suc (Suc i)..<Suc (length es)] = map Suc [Suc i..<length es]"
    by (simp add: map_Suc_upt)
  then show ?thesis
    by (simp add: roundedRow_def filter_map comp_def)
qed

lemma spec_roundedPairs_Cons:
  "spec_roundedPairs rnd (e # es)
   = map (spec_roundedPoint rnd e) (filter (spec_validPair e) es) @ spec_roundedPairs rnd es"
proof -
  have "[0..<length (e # es)] = 0 # map Suc [0..<length es]"
    by (simp add: upt_conv_Cons map_Suc_upt del: upt_Suc)
  then have A: "spec_roundedPairs rnd (e # es)
                = roundedRow rnd (e # es) 0 @ concat (map (\<lambda>i. roundedRow rnd (e # es) (Suc i)) [0..<length es])"
    unfolding spec_roundedPairs_def roundedRow_def by (simp add: comp_def del: upt_Suc)
  have B: "spec_roundedPairs rnd es = concat (map (roundedRow rnd es) [0..<length es])"
    unfolding spec_roundedPairs_def roundedRow_def by simp
  show ?thesis
    by (simp only: A B roundedRow_0 roundedRow_Suc)
qed

text \<open>The nested loops build the valid pairs \<open>i < j\<close>, in the order of the rows.\<close>

lemma allPairsRounded_refines:
  "map roundedTuple (allPairsRounded rnd es) = spec_roundedPairs rnd es"
proof (induction es)
  case Nil
  show ?case by (simp add: spec_roundedPairs_def)
next
  case (Cons e es)
  show ?case
  proof (cases "calories e")
    case None
    then show ?thesis using Cons by (simp add: spec_roundedPairs_Cons pairsFrom_none)
  next
    case (Some cc)
    then show ?thesis using Cons by (simp add: spec_roundedPairs_Cons pairsFromRounded_filter)
  qed
qed

lemma rounded_sumX:
  "foldl (\<lambda>s v. rounded rnd (s + v)) (Fin 0) (map rp_calories pairs)
   = spec_roundedSum rnd (map fst (map roundedTuple pairs))"
  by (simp add: spec_roundedSum_def comp_def roundedTuple_def)

lemma rounded_sumY:
  "foldl (\<lambda>s v. rounded rnd (s + v)) (Fin 0) (map rp_weightRate pairs)
   = spec_roundedSum rnd (map snd (map roundedTuple pairs))"
  by (simp add: spec_roundedSum_def comp_def roundedTuple_def)

lemma rounded_sumXX:
  "foldl (\<lambda>s v. rounded rnd (s + rounded rnd (v * v))) (Fin 0) (map rp_calories pairs)
   = spec_roundedSum rnd (map (\<lambda>p. rounded rnd (fst p * fst p)) (map roundedTuple pairs))"
  by (simp add: spec_roundedSum_def comp_def roundedTuple_def foldl_map)

lemma rounded_sumXY:
  "foldl (\<lambda>s (idx, v). rounded rnd (s + rounded rnd (v * item (map rp_weightRate pairs) idx))) (Fin 0)
         (enumerate 0 (map rp_calories pairs))
   = spec_roundedSum rnd (map (\<lambda>p. rounded rnd (fst p * snd p)) (map roundedTuple pairs))"
proof -
  have "map (\<lambda>t. rounded rnd (snd t * item (map rp_weightRate pairs) (fst t)))
            (enumerate 0 (map rp_calories pairs))
        = map (\<lambda>p. rounded rnd (fst p * snd p)) (map roundedTuple pairs)"
    by (rule nth_equalityI) (simp_all add: nth_enumerate_eq item_def roundedTuple_def)
  then have "spec_roundedSum rnd (map (\<lambda>p. rounded rnd (fst p * snd p)) (map roundedTuple pairs))
             = foldl (\<lambda>s v. rounded rnd (s + v)) (Fin 0)
                 (map (\<lambda>t. rounded rnd (snd t * item (map rp_weightRate pairs) (fst t)))
                      (enumerate 0 (map rp_calories pairs)))"
    by (simp add: spec_roundedSum_def)
  also have "\<dots> = foldl (\<lambda>s (idx, v). rounded rnd (s + rounded rnd (v * item (map rp_weightRate pairs) idx)))
                      (Fin 0) (enumerate 0 (map rp_calories pairs))"
    by (simp add: foldl_map case_prod_unfold)
  finally show ?thesis by (rule sym)
qed

text \<open>The result of the code in terms of the line through its own pairs.\<close>

lemma rounded_code:
  fixes es :: "entry list" and rnd :: "real \<Rightarrow> number"
  defines "ps \<equiv> map roundedTuple (allPairsRounded rnd (sortByDate es))"
  defines "r \<equiv> calculateEmpiricalKcalPerKgRounded rnd es"
  shows "re_intervals r = length ps"
    and "re_empirical r
         = (if length ps < 3 \<or> spec_roundedDenominator rnd ps = Fin 0 \<or> spec_roundedSlope rnd ps = Fin 0
            then None
            else Some (Math_abs (rounded rnd (Fin 1 / spec_roundedSlope rnd ps))))"
    and "re_maintenance r
         = (if length ps < 3 \<or> spec_roundedDenominator rnd ps = Fin 0 \<or> spec_roundedSlope rnd ps = Fin 0
            then None
            else Some (rounded rnd (- spec_roundedIntercept rnd ps / spec_roundedSlope rnd ps)))"
  unfolding r_def calculateEmpiricalKcalPerKgRounded_def Let_def
            rounded_sumX rounded_sumY rounded_sumXX rounded_sumXY
  by (simp_all add: noRoundedEstimate_def ps_def spec_roundedDenominator_def spec_roundedSlope_def
                    spec_roundedIntercept_def Let_def)

subsection \<open>Exact arithmetic is the rounding that changes nothing\<close>

lemma rounded_Fin: "rounded Fin v = v"
  by (cases v) (simp_all add: rounded_def)

lemma pairsFromRounded_exact:
  "map roundedTuple (pairsFromRounded Fin cur cc rest)
   = map (map_prod Fin Fin) (map pairTuple (pairsFrom cur cc rest))"
  by (induction rest)
     (auto simp: roundedTuple_def pairTuple_def rounded_Fin minus_number_def Let_def
           split: option.splits)

lemma allPairsRounded_exact:
  "map roundedTuple (allPairsRounded Fin es) = map (map_prod Fin Fin) (map pairTuple (allPairs es))"
  by (induction es) (auto simp: pairsFromRounded_exact split: option.splits)

lemma roundedSum_exact_from:
  "foldl (\<lambda>s v. rounded Fin (s + v)) (Fin a) (map (\<lambda>p. Fin (f p)) ps) = Fin (a + (\<Sum>p\<leftarrow>ps. f p))"
  by (induction ps arbitrary: a) (simp_all add: rounded_Fin add.assoc)

lemma roundedSum_exact:
  "spec_roundedSum Fin (map (\<lambda>p. Fin (f p)) ps) = Fin (\<Sum>p\<leftarrow>ps. f p)"
  using roundedSum_exact_from [of 0 f ps] by (simp add: spec_roundedSum_def)

lemma roundedDenominator_exact:
  "spec_roundedDenominator Fin (map (map_prod Fin Fin) ps)
   = Fin (real (length ps) * (\<Sum>p\<leftarrow>ps. fst p * fst p) - (\<Sum>p\<leftarrow>ps. fst p) * (\<Sum>p\<leftarrow>ps. fst p))"
  by (simp add: spec_roundedDenominator_def rounded_Fin comp_def roundedSum_exact minus_number_def)

lemma roundedSlope_exact:
  assumes "real (length ps) * (\<Sum>p\<leftarrow>ps. fst p * fst p) - (\<Sum>p\<leftarrow>ps. fst p) * (\<Sum>p\<leftarrow>ps. fst p) \<noteq> 0"
  shows "spec_roundedSlope Fin (map (map_prod Fin Fin) ps)
         = Fin ((real (length ps) * (\<Sum>p\<leftarrow>ps. fst p * snd p) - (\<Sum>p\<leftarrow>ps. fst p) * (\<Sum>p\<leftarrow>ps. snd p))
                / (real (length ps) * (\<Sum>p\<leftarrow>ps. fst p * fst p) - (\<Sum>p\<leftarrow>ps. fst p) * (\<Sum>p\<leftarrow>ps. fst p)))"
  using assms
  by (simp add: spec_roundedSlope_def roundedDenominator_exact rounded_Fin comp_def roundedSum_exact
                minus_number_def)

lemma roundedIntercept_exact:
  assumes "real (length ps) * (\<Sum>p\<leftarrow>ps. fst p * fst p) - (\<Sum>p\<leftarrow>ps. fst p) * (\<Sum>p\<leftarrow>ps. fst p) \<noteq> 0"
    and "ps \<noteq> []"
  shows "spec_roundedIntercept Fin (map (map_prod Fin Fin) ps)
         = Fin (((\<Sum>p\<leftarrow>ps. snd p)
                 - (real (length ps) * (\<Sum>p\<leftarrow>ps. fst p * snd p) - (\<Sum>p\<leftarrow>ps. fst p) * (\<Sum>p\<leftarrow>ps. snd p))
                   / (real (length ps) * (\<Sum>p\<leftarrow>ps. fst p * fst p) - (\<Sum>p\<leftarrow>ps. fst p) * (\<Sum>p\<leftarrow>ps. fst p))
                   * (\<Sum>p\<leftarrow>ps. fst p)) / real (length ps))"
  using assms(2)
  by (simp add: spec_roundedIntercept_def roundedSlope_exact [OF assms(1)] rounded_Fin comp_def
                roundedSum_exact minus_number_def)

text \<open>
  The estimator over the reals, which the other sections use, is the rounded estimator
  with the rounding that returns the exact result.
\<close>

lemma exact_is_unrounded:
  "re_intervals (calculateEmpiricalKcalPerKgRounded Fin es) = intervals (calculateEmpiricalKcalPerKg es)"
  "re_empirical (calculateEmpiricalKcalPerKgRounded Fin es)
   = map_option Fin (empirical (calculateEmpiricalKcalPerKg es))"
  "re_maintenance (calculateEmpiricalKcalPerKgRounded Fin es)
   = map_option Fin (maintenance (calculateEmpiricalKcalPerKg es))"
proof -
  define ps where "ps = map pairTuple (allPairs (sortByDate es))"
  have P: "map roundedTuple (allPairsRounded Fin (sortByDate es)) = map (map_prod Fin Fin) ps"
    by (simp add: ps_def allPairsRounded_exact)
  note R = rounded_code [of Fin es, unfolded P]
  note E = empirical_code [of es, folded ps_def]
  show "re_intervals (calculateEmpiricalKcalPerKgRounded Fin es) = intervals (calculateEmpiricalKcalPerKg es)"
    unfolding R(1) E(1) by simp
  let ?D = "real (length ps) * (\<Sum>p\<leftarrow>ps. fst p * fst p) - (\<Sum>p\<leftarrow>ps. fst p) * (\<Sum>p\<leftarrow>ps. fst p)"
  show "re_empirical (calculateEmpiricalKcalPerKgRounded Fin es)
        = map_option Fin (empirical (calculateEmpiricalKcalPerKg es))"
  proof (cases "length ps < 3 \<or> ?D = 0")
    case True
    then show ?thesis unfolding R(2) E(2) by (auto simp: roundedDenominator_exact)
  next
    case False
    then have D: "?D \<noteq> 0" by simp
    show ?thesis
      unfolding R(2) E(2) using False
      by (simp add: roundedDenominator_exact roundedSlope_exact [OF D] rounded_Fin)
  qed
  show "re_maintenance (calculateEmpiricalKcalPerKgRounded Fin es)
        = map_option Fin (maintenance (calculateEmpiricalKcalPerKg es))"
  proof (cases "length ps < 3 \<or> ?D = 0")
    case True
    then show ?thesis unfolding R(3) E(3) by (auto simp: roundedDenominator_exact)
  next
    case False
    then have D: "?D \<noteq> 0" and ne: "ps \<noteq> []" by auto
    show ?thesis
      unfolding R(3) E(3) using False
      by (simp add: roundedDenominator_exact roundedSlope_exact [OF D]
                    roundedIntercept_exact [OF D ne] rounded_Fin)
  qed
qed

subsection \<open>The estimator returns the regression of the valid pairs\<close>







lemma equalCalories_exactPairs:
  "spec_validPairs (sortByDate equalCaloriesLog) = [(25, 1), (25, 3 / 2), (25, 2)]"
  unfolding allPairs_refines [symmetric]
  by (simp add: equalCaloriesLog_def sortByDate_def ymd_def pairTuple_def getTime_def DAY_MS_def)

lemma equalCalories_exact: "empirical (calculateEmpiricalKcalPerKg equalCaloriesLog) = None"
  using empirical_by_specification(2) [of equalCaloriesLog]
  by (simp add: equalCalories_exactPairs spec_Sxx_def spec_mean_def)

lemma twoDigits_small: "\<bar>r\<bar> < 100 \<Longrightarrow> rounded twoDigits (Fin r) = Fin r"
  by (simp add: rounded_def twoDigits_def)

lemma equalCalories_roundedPairs:
  "spec_roundedPairs twoDigits (sortByDate equalCaloriesLog)
   = [(Fin 25, Fin 1), (Fin 25, Fin (3 / 2)), (Fin 25, Fin 2)]"
  unfolding allPairsRounded_refines [symmetric]
  by (simp add: equalCaloriesLog_def sortByDate_def ymd_def roundedTuple_def getTime_def DAY_MS_def
                minus_number_def twoDigits_small)

lemma equalCalories_roundedDenominator:
  "spec_roundedDenominator twoDigits [(Fin 25, Fin 1), (Fin 25, Fin (3 / 2)), (Fin 25, Fin 2)] = Fin 100"
  by (simp add: spec_roundedDenominator_def spec_roundedSum_def rounded_def twoDigits_def minus_number_def)

lemma equalCalories_roundedSlope:
  "spec_roundedSlope twoDigits [(Fin 25, Fin 1), (Fin 25, Fin (3 / 2)), (Fin 25, Fin 2)] = Fin (- 1 / 10)"
  by (simp add: spec_roundedSlope_def equalCalories_roundedDenominator)
     (simp add: spec_roundedSum_def rounded_def twoDigits_def minus_number_def)

lemma equalCalories_roundedIntercept:
  "spec_roundedIntercept twoDigits [(Fin 25, Fin 1), (Fin 25, Fin (3 / 2)), (Fin 25, Fin 2)] = Fin 4"
  by (simp add: spec_roundedIntercept_def equalCalories_roundedSlope)
     (simp add: spec_roundedSum_def rounded_def twoDigits_def minus_number_def)

text \<open>
  The rounding decides the guards. On the log of equal calories the points have one common
  abscissa: in exact arithmetic the denominator is zero and the estimator returns null;
  with the coarse rounding the sum of the squares is 1900 and the square of the sum 5600,
  the computed denominator is 100, and the estimator returns numbers.
\<close>

lemma rounding_decides_the_guards:
  "empirical (calculateEmpiricalKcalPerKg equalCaloriesLog) = None \<and>
   re_empirical (calculateEmpiricalKcalPerKgRounded twoDigits equalCaloriesLog) = Some (Fin 10) \<and>
   re_maintenance (calculateEmpiricalKcalPerKgRounded twoDigits equalCaloriesLog) = Some (Fin 40)"
  using rounded_code(2,3) [of twoDigits equalCaloriesLog, unfolded allPairsRounded_refines]
  by (simp add: equalCalories_exact equalCalories_roundedPairs equalCalories_roundedDenominator
                equalCalories_roundedSlope equalCalories_roundedIntercept rounded_def twoDigits_def)


section \<open>Properties of the components modelled from the specification\<close>

text \<open>
  Claim C6, on the estimator as modelled from the specification: with fewer than 3 valid
  pairs in the date-ordered log, or a slope interval that straddles zero, the stability is
  \<open>insufficient\<close> and there is no kcal/kg interval.
\<close>

theorem helper_insufficient:
  fixes es :: "entry list" and wide :: real and conf :: ConfidenceLevel
  defines "ps \<equiv> spec_validPairs (sortByDate es)"
  defines "r \<equiv> calculateEmpiricalKcalPerKgHelper wide es conf"
  assumes "length ps < 3 \<or> straddlesZero (spec_slopeCI conf ps)"
  shows "stability r = Insufficient \<and> empiricalCI r = None"
proof -
  have ps: "map pairTuple (allPairs (sortByDate es)) = ps"
    by (simp add: ps_def allPairs_refines)
  show ?thesis
  proof (cases "empirical (calculateEmpiricalKcalPerKg es)")
    case None
    then show ?thesis
      by (simp add: r_def calculateEmpiricalKcalPerKgHelper_def Let_def EmpiricalEstimate.defs RichEstimate.defs)
  next
    case (Some k)
    then have "\<not> length ps < 3"
      using empirical_code(2) [of es] by (simp add: ps split: if_splits)
    with assms(3) have "straddlesZero (spec_slopeCI conf ps)" by simp
    then show ?thesis
      using Some
      by (simp add: r_def calculateEmpiricalKcalPerKgHelper_def Let_def ps EmpiricalEstimate.defs RichEstimate.defs)
  qed
qed

lemma log3_short_pairs: "length (spec_validPairs (sortByDate (take 2 log3))) < 3"
  by (simp add: log3_two_pairs)

lemma flatLog_pairs:
  "spec_validPairs (sortByDate flatLog) = [(2250, 0), (2500, 0), (2750, 0)]"
  unfolding allPairs_refines [symmetric]
  by (simp add: flatLog_def sortByDate_def ymd_def pairTuple_def getTime_def DAY_MS_def)

lemma flatLog_slope: "spec_slope [(2250, 0), (2500, 0), (2750, 0)] = 0"
  by (simp add: spec_slope_def spec_Sxy_def spec_mean_def)

lemma flatLog_slopeCI: "spec_slopeCI conf [(2250, 0), (2500, 0), (2750, 0)] = (0, 0)"
  by (simp add: spec_slopeCI_def spec_slopeSE_def flatLog_slope spec_intercept_def spec_mean_def)

lemma flatLog_straddles: "straddlesZero (spec_slopeCI conf (spec_validPairs (sortByDate flatLog)))"
  by (simp add: flatLog_pairs flatLog_slopeCI straddlesZero_def)

theorem helper_insufficient_witness:
  "length (spec_validPairs (sortByDate (take 2 log3))) < 3 \<and>
   stability (calculateEmpiricalKcalPerKgHelper (1 / 2) (take 2 log3) C95) = Insufficient \<and>
   empiricalCI (calculateEmpiricalKcalPerKgHelper (1 / 2) (take 2 log3) C95) = None \<and>
   straddlesZero (spec_slopeCI C95 (spec_validPairs (sortByDate flatLog))) \<and>
   stability (calculateEmpiricalKcalPerKgHelper (1 / 2) flatLog C95) = Insufficient \<and>
   empiricalCI (calculateEmpiricalKcalPerKgHelper (1 / 2) flatLog C95) = None"
  using helper_insufficient [of "take 2 log3" C95 "1 / 2"] log3_short_pairs
        helper_insufficient [of flatLog C95 "1 / 2"] flatLog_straddles [of C95]
  by simp

text \<open>On consistent data the modelled classification is \<open>stable\<close>, with a defined interval.\<close>

lemma helper_stable:
  "stability (calculateEmpiricalKcalPerKgHelper (1 / 2) log3 C95) = Stable \<and>
   empiricalCI (calculateEmpiricalKcalPerKgHelper (1 / 2) log3 C95) = Some (6000, 6000)"
proof -
  have ps: "map pairTuple (allPairs (sortByDate log3)) = [(2450, 1 / 5), (2600, 9 / 40), (2750, 1 / 4)]"
    using log3_pairs by (simp add: allPairs_refines)
  have se: "spec_slopeSE [(2450, 1 / 5), (2600, 9 / 40), (2750, 1 / 4)] = 0"
    by (simp add: spec_slopeSE_def log3_slope log3_intercept)
  have emp: "empirical (calculateEmpiricalKcalPerKg log3) = Some 6000"
    by (rule log3_empirical)
  show ?thesis
    by (simp add: calculateEmpiricalKcalPerKgHelper_def Let_def ps emp spec_slopeCI_def se log3_slope
        straddlesZero_def EmpiricalEstimate.defs RichEstimate.defs)
qed

text \<open>The conversion that the modelled estimator supplies is always positive.\<close>

lemma bestKcalPerKg_positive:
  "0 < bestKcalPerKg (calculateEmpiricalKcalPerKgHelper wide es conf)"
proof (cases "empirical (calculateEmpiricalKcalPerKg es)")
  case None
  then show ?thesis
    by (simp add: bestKcalPerKg_def calculateEmpiricalKcalPerKgHelper_def Let_def KCAL_PER_KG_def
        EmpiricalEstimate.defs RichEstimate.defs)
next
  case (Some k)
  then have "0 < k"
    using empirical_by_specification(2) [of es] by (auto split: if_splits)
  then show ?thesis
    using Some
    by (simp add: bestKcalPerKg_def calculateEmpiricalKcalPerKgHelper_def Let_def KCAL_PER_KG_def
        EmpiricalEstimate.defs RichEstimate.defs)
qed

text \<open>
  Claim C5, on the detector as modelled from the specification: with at least 14 days of
  data, an inference with a finite maintenance, an observed rate outside the noise band, an
  average intake below the maintenance and a positive observed slope (and a positive
  kcal/kg conversion), the notice is \<open>gain_despite_deficit\<close> with a positive adjustment.
\<close>

theorem intake_gain_despite_deficit:
  assumes "int MIN_DAYS_FOR_INFERENCE \<le> spec_daysOfData es"
    and "inferenceFn es conf = Some inference"
    and "maintenanceCalories inference = Fin maint"
    and "getAverageIntake es = Some avgIntake"
    and "\<not> withinNoise inference (empFn es) (spec_observedRate es)
             ((avgIntake - maint) / bestKcalPerKg (empFn es))"
    and "avgIntake < maint"
    and "0 < spec_observedRate es"
    and "0 < bestKcalPerKg (empFn es)"
  shows "\<exists>n. computeIntakeNotice withinNoise es conf inferenceFn empFn = Some n \<and>
             direction n = gain_despite_deficit \<and> 0 < suggestedAdjustment n"
proof -
  have "(avgIntake - maint) / bestKcalPerKg (empFn es) < 0"
    using assms(6,8) by (simp add: divide_neg_pos)
  then have "0 < (spec_observedRate es - (avgIntake - maint) / bestKcalPerKg (empFn es))
                 * bestKcalPerKg (empFn es)"
    using assms(7,8) by (intro mult_pos_pos) simp_all
  then show ?thesis
    using assms(1-7) by (simp add: computeIntakeNotice_def Let_def)
qed

lemma deficitLog_sorted: "sortByDate deficitLog = deficitLog"
  by (simp add: deficitLog_def sortByDate_def ymd_def)

lemma deficitLog_days: "spec_daysOfData deficitLog = 15"
  unfolding spec_daysOfData_def deficitLog_sorted
  by (simp add: deficitLog_def ymd_def)

lemma deficitLog_rate: "spec_observedRate deficitLog = 1 / 50"
  unfolding spec_observedRate_def deficitLog_sorted
  by (simp add: deficitLog_def ymd_def spec_slope_def spec_Sxy_def spec_Sxx_def spec_mean_def
      power2_eq_square)

lemma deficitLog_intake: "getAverageIntake deficitLog = Some 2000"
  by (simp add: getAverageIntake_def deficitLog_def)

lemma baseEmp_kcal: "bestKcalPerKg (empStub es) = 7700"
  by (simp add: bestKcalPerKg_def empStub_def baseEmp_def KCAL_PER_KG_def)

theorem intake_gain_despite_deficit_witness:
  "int MIN_DAYS_FOR_INFERENCE \<le> spec_daysOfData deficitLog \<and>
   inferenceStub deficitLog C95 = Some baseInference \<and>
   maintenanceCalories baseInference = Fin 2500 \<and>
   getAverageIntake deficitLog = Some 2000 \<and>
   \<not> noiseBand baseInference (empStub deficitLog) (spec_observedRate deficitLog)
        ((2000 - 2500) / bestKcalPerKg (empStub deficitLog)) \<and>
   (2000 :: real) < 2500 \<and> 0 < spec_observedRate deficitLog \<and>
   0 < bestKcalPerKg (empStub deficitLog) \<and>
   computeIntakeNotice noiseBand deficitLog C95 inferenceStub empStub
     = Some \<lparr>direction = gain_despite_deficit, suggestedAdjustment = 654\<rparr>"
proof -
  have h: "int MIN_DAYS_FOR_INFERENCE \<le> spec_daysOfData deficitLog"
      "inferenceStub deficitLog C95 = Some baseInference"
      "maintenanceCalories baseInference = Fin 2500"
      "getAverageIntake deficitLog = Some 2000"
      "\<not> noiseBand baseInference (empStub deficitLog) (spec_observedRate deficitLog)
          ((2000 - 2500) / bestKcalPerKg (empStub deficitLog))"
      "(2000 :: real) < 2500" "0 < spec_observedRate deficitLog"
      "0 < bestKcalPerKg (empStub deficitLog)"
    by (simp_all add: deficitLog_days deficitLog_rate deficitLog_intake baseEmp_kcal
        MIN_DAYS_FOR_INFERENCE_def inferenceStub_def baseInference_def noiseBand_def)
  have ex: "\<exists>n. computeIntakeNotice noiseBand deficitLog C95 inferenceStub empStub = Some n \<and>
                 direction n = gain_despite_deficit \<and> 0 < suggestedAdjustment n"
    by (rule intake_gain_despite_deficit
          [where es = deficitLog and inferenceFn = inferenceStub and conf = C95
             and inference = baseInference and maint = 2500 and avgIntake = 2000
             and withinNoise = noiseBand and empFn = empStub, OF h])
  have "computeIntakeNotice noiseBand deficitLog C95 inferenceStub empStub
        = Some \<lparr>direction = gain_despite_deficit, suggestedAdjustment = 654\<rparr>"
    using h(5)
    by (simp add: computeIntakeNotice_def Let_def deficitLog_days deficitLog_rate deficitLog_intake
        baseEmp_kcal MIN_DAYS_FOR_INFERENCE_def inferenceStub_def baseInference_def)
  with h ex show ?thesis by simp
qed

section \<open>Properties of the period aggregator\<close>

lemma DAY_MS_pos: "0 < DAY_MS"
  by (simp add: DAY_MS_def)

lemma getTime_weeks: "getTime w div (7 * DAY_MS) = w div 7"
  using DAY_MS_pos unfolding getTime_def by simp

lemma time_to_day: "(k * DAY_MS) div DAY_MS = k"
  using DAY_MS_pos by simp

lemma getTime_span: "getTime s + n * DAY_MS - DAY_MS = (s + n - 1) * DAY_MS"
  unfolding getTime_def by (simp add: distrib_right left_diff_distrib)

text \<open>
  The two-week bucket in closed form: it starts on day \<open>14 * (weekStart div 7 div 2)\<close>,
  a multiple of 14 days after 1970-01-01 (a Thursday), whatever Monday the week starts on.
\<close>

lemma getGroupInfo_2w:
  "getGroupInfo d G2w =
     \<lparr>key = Key2w (14 * (startOfWeek d div 7 div 2)),
      label = Label2w (14 * (startOfWeek d div 7 div 2)) (14 * (startOfWeek d div 7 div 2) + 13),
      startDate = 14 * (startOfWeek d div 7 div 2),
      endDate = 14 * (startOfWeek d div 7 div 2) + 13\<rparr>"
proof -
  have s: "(startOfWeek d div 7 div 2) * 2 * 7 * DAY_MS div DAY_MS = 14 * (startOfWeek d div 7 div 2)"
    using time_to_day [of "(startOfWeek d div 7 div 2) * 2 * 7"] by (simp add: mult.assoc)
  have e: "(getTime (14 * (startOfWeek d div 7 div 2)) + 14 * DAY_MS - DAY_MS) div DAY_MS
           = 14 * (startOfWeek d div 7 div 2) + 13"
    unfolding getTime_span using time_to_day [of "14 * (startOfWeek d div 7 div 2) + 14 - 1"] by simp
  show ?thesis
    unfolding getGroupInfo_def Let_def StatsGroupingOption.case getTime_weeks s e ..
qed

lemma getGroupInfo_thursday: "getGroupInfo (ymd 2024 1 4) G2w =
   \<lparr>key = Key2w (ymd 2023 12 21), label = Label2w (ymd 2023 12 21) (ymd 2024 1 3),
     startDate = ymd 2023 12 21, endDate = ymd 2024 1 3\<rparr>"
  unfolding getGroupInfo_2w
  by (simp add: startOfWeek_def getDay_def ymd_def)

lemma thursday_groups:
  "weeklyGroups thursdayLog G2w
   = [\<lparr>weekStart = Label2w (ymd 2023 12 21) (ymd 2024 1 3), data = thursdayLog,
        startDateMs = getTime (ymd 2023 12 21)\<rparr>]"
  by (simp add: weeklyGroups_def groupEntry_def thursdayLog_def getGroupInfo_thursday sortByDate_def)

lemma thursday_results:
  "weeklyResults thursdayLog G2w conf
   = [\<lparr>ws_weekStart = Label2w (ymd 2023 12 21) (ymd 2024 1 3),
        ws_startDateMs = getTime (ymd 2023 12 21),
        mean = Fin 70, sd = Fin 0, ci = (Fin 70, Fin 70), dataLength = 1,
        change = None, changeCI = None\<rparr>]"
  unfolding weeklyResults_def thursday_groups
  by (simp add: pushStats_def computeMean_def thursdayLog_def Let_def)

lemma thursday_in_range:
  "entriesInRange thursdayLog (getGroupInfo (ymd 2024 1 4) G2w) = 0"
  unfolding getGroupInfo_thursday by (simp add: entriesInRange_def thursdayLog_def ymd_def)

text \<open>
  Claim C7, on a log of one entry dated 2024-01-04 (a Thursday), grouped by two weeks: the
  claim asks that a bucket's count be the number of entries dated within the bucket's
  range. The entry's bucket runs from 2023-12-21 to 2024-01-03 and has a count of 1,
  while no entry of the log is dated within that range.
\<close>

theorem two_week_bucket_misses_its_range:
  "map dataLength (weeklyResults thursdayLog G2w conf) = [1] \<and>
   startDate (getGroupInfo (ymd 2024 1 4) G2w) = ymd 2023 12 21 \<and>
   endDate (getGroupInfo (ymd 2024 1 4) G2w) = ymd 2024 1 3 \<and>
   entriesInRange thursdayLog (getGroupInfo (ymd 2024 1 4) G2w) = 0"
proof (intro conjI)
  show "map dataLength (weeklyResults thursdayLog G2w conf) = [1]"
    by (simp add: thursday_results)
  show "startDate (getGroupInfo (ymd 2024 1 4) G2w) = ymd 2023 12 21"
    by (simp add: getGroupInfo_thursday)
  show "endDate (getGroupInfo (ymd 2024 1 4) G2w) = ymd 2024 1 3"
    by (simp add: getGroupInfo_thursday)
  show "entriesInRange thursdayLog (getGroupInfo (ymd 2024 1 4) G2w) = 0"
    by (rule thursday_in_range)
qed

lemma pushToGroup_keys: "map fst (pushToGroup k e gs) = map fst gs"
  by (induction gs) auto

lemma pushToGroup_nonempty:
  "list_all (\<lambda>p. data (snd p) \<noteq> []) gs \<Longrightarrow> list_all (\<lambda>p. data (snd p) \<noteq> []) (pushToGroup k e gs)"
  by (induction gs) auto

lemma pushToGroup_new:
  "k \<notin> fst ` set gs \<Longrightarrow> pushToGroup k e (gs @ [(k, g)]) = gs @ [(k, g\<lparr>data := data g @ [e]\<rparr>)]"
  by (induction gs) auto

lemma groupEntry_nonempty:
  assumes "list_all (\<lambda>p. data (snd p) \<noteq> []) gs"
  shows "list_all (\<lambda>p. data (snd p) \<noteq> []) (groupEntry G gs e)"
proof (cases "key (getGroupInfo (date e) G) \<in> fst ` set gs")
  case True
  then show ?thesis
    using pushToGroup_nonempty [OF assms] by (simp add: groupEntry_def Let_def)
next
  case False
  then show ?thesis
    using assms by (simp add: groupEntry_def Let_def pushToGroup_new)
qed

lemma grouped_nonempty:
  "list_all (\<lambda>p. data (snd p) \<noteq> []) gs \<Longrightarrow>
   list_all (\<lambda>p. data (snd p) \<noteq> []) (foldl (groupEntry G) gs es)"
proof (induction es arbitrary: gs)
  case Nil
  then show ?case by simp
next
  case (Cons e es)
  show ?case
    using Cons.IH [OF groupEntry_nonempty [OF Cons.prems]] by simp
qed

text \<open>No empty bucket is materialised, in any grouping mode.\<close>

lemma weeklyGroups_nonempty:
  assumes "g \<in> set (weeklyGroups es G)"
  shows "data g \<noteq> []"
proof -
  have all: "list_all (\<lambda>p. data (snd p) \<noteq> []) (foldl (groupEntry G) [] es)"
    by (rule grouped_nonempty) simp
  from assms obtain p where p: "p \<in> set (foldl (groupEntry G) [] es)"
      "g = (snd p)\<lparr>data := sortByDate (data (snd p))\<rparr>"
    by (auto simp: weeklyGroups_def)
  from all p(1) have "data (snd p) \<noteq> []"
    by (simp add: list_all_iff)
  then have "length (sortByDate (data (snd p))) \<noteq> 0"
    by (simp add: sortByDate_def)
  then show ?thesis
    using p(2) by auto
qed

lemma weeklyGroups_sorted: "sorted (map startDateMs (weeklyGroups es G))"
  by (simp add: weeklyGroups_def)

lemma pushStats_dataLength:
  "map dataLength (pushStats conf res g) = map dataLength res @ [length (data g)]"
  by (cases res) (simp_all add: pushStats_def Let_def)

lemma foldl_pushStats_dataLength:
  "map dataLength (foldl (pushStats conf) res gs) = map dataLength res @ map (\<lambda>g. length (data g)) gs"
  by (induction gs arbitrary: res) (simp_all add: pushStats_dataLength)

text \<open>Each bucket's count is the number of entries grouped under its key.\<close>

lemma weeklyResults_dataLength:
  "map dataLength (weeklyResults es G conf) = map (\<lambda>g. length (data g)) (weeklyGroups es G)"
  by (simp add: weeklyResults_def foldl_pushStats_dataLength)

section \<open>Properties of the body composition estimator\<close>

lemma agree_applyCalibration:
  "agree a b \<Longrightarrow> agree (applyCalibration x w t f e a) (applyCalibration x w t f e b)"
  unfolding applyCalibration_def agree_def Let_def by simp

lemma agree_calibrate:
  assumes "agree a b"
  shows "rel_option agree (calibrate E S conf f e a) (calibrate E S conf f e b)"
proof -
  from assms have same:
    "lastCalibrationDate a = lastCalibrationDate b" "results a = results b"
    "currentFatMass a = currentFatMass b"
    by (simp_all add: agree_def)
  show ?thesis
    unfolding calibrate_def same
    by (simp add: assms agree_applyCalibration split: evidence.splits)
qed

lemma agree_measuredEntry:
  assumes "agree a b"
  shows "rel_option agree (measuredEntry E S conf f abf p e a) (measuredEntry E S conf f abf p e b)"
proof -
  let ?s1 = "\<lambda>s. s\<lparr>currentFatMass := Fin (weight e) * (abf / Fin 100),
                     currentLeanMass := Fin (weight e) - Fin (weight e) * (abf / Fin 100),
                     lastKnownFatPercentage := abf,
                     results := results s @
                       [\<lparr>e_date = date e, e_weight = weight e,
                         bodyFatPercentage = abf,
                         fatMass = Fin (weight e) * (abf / Fin 100),
                         leanMass = Fin (weight e) - Fin (weight e) * (abf / Fin 100),
                         bodyFatPercentageCI = (abf - Fin 1, abf + Fin 1),
                         isEstimated = False\<rparr>]\<rparr>"
  have s1: "agree (?s1 a) (?s1 b)"
    using assms by (simp add: agree_def)
  have upd: "\<And>x y. agree x y \<Longrightarrow> agree (x\<lparr>lastCalibrationDate := date e\<rparr>) (y\<lparr>lastCalibrationDate := date e\<rparr>)"
    by (simp add: agree_def)
  show ?thesis
  proof (cases p)
    case None
    then show ?thesis using s1 by (simp add: measuredEntry_def Let_def)
  next
    case (Some q)
    have "rel_option agree (calibrate E S conf f e (?s1 a)) (calibrate E S conf f e (?s1 b))"
      by (rule agree_calibrate [OF s1])
    then have "rel_option agree
                 (map_option (\<lambda>s2. s2\<lparr>lastCalibrationDate := date e\<rparr>) (calibrate E S conf f e (?s1 a)))
                 (map_option (\<lambda>s2. s2\<lparr>lastCalibrationDate := date e\<rparr>) (calibrate E S conf f e (?s1 b)))"
      by (auto simp: option.rel_map intro: option.rel_mono_strong upd)
    then show ?thesis using Some by (simp add: measuredEntry_def Let_def)
  qed
qed

lemma agree_estimatedEntry:
  "agree a b \<Longrightarrow> agree (estimatedEntry E p e a) (estimatedEntry E p e b)"
  unfolding estimatedEntry_def agree_def Let_def by simp

lemma agree_carriedEntry: "agree a b \<Longrightarrow> agree (carriedEntry e a) (carriedEntry e b)"
  unfolding carriedEntry_def agree_def Let_def by simp

lemma agree_firstEntry: "agree a b \<Longrightarrow> agree (firstEntry x y z e a) (firstEntry x y z e b)"
  unfolding firstEntry_def agree_def by simp

lemma agree_processEntry:
  assumes "agree a b"
  shows "rel_option agree (processEntry E S M conf x y z p e a) (processEntry E S M conf x y z p e b)"
  unfolding processEntry_def
  by (simp add: assms agree_measuredEntry agree_estimatedEntry agree_carriedEntry agree_firstEntry
           split: option.splits)

lemma agree_forEachEntry:
  assumes body: "\<And>p e a b. agree a b \<Longrightarrow> rel_option agree (body p e a) (body p e b)"
  shows "agree a b \<Longrightarrow> rel_option agree (forEachEntry body p es a) (forEachEntry body p es b)"
proof (induction es arbitrary: p a b)
  case Nil
  then show ?case by simp
next
  case (Cons e es)
  from body [OF Cons.prems, of p e] show ?case
  proof (cases rule: option.rel_cases)
    case None
    then show ?thesis by simp
  next
    case (Some a' b')
    then show ?thesis using Cons.IH [of a' b' "Some e"] by simp
  qed
qed

lemma calculateBodyComposition_agree:
  "rel_option (\<lambda>r1 r2. estimates r1 = estimates r2 \<and>
                 (newCalibrationFactor r1 = None \<longleftrightarrow> newCalibrationFactor r2 = None))
     (calculateBodyComposition es ms sbf cf1 conf) (calculateBodyComposition es ms sbf cf2 conf)"
proof (cases "sortByDate es")
  case Nil
  then show ?thesis by (simp add: calculateBodyComposition_def)
next
  case (Cons first others)
  show ?thesis
  proof (cases sbf)
    case None
    then show ?thesis using Cons by (simp add: calculateBodyComposition_def)
  next
    case (Some startBodyFat)
    show ?thesis
      unfolding calculateBodyComposition_def Cons Some
      apply (simp add: Let_def option.rel_map del: forEachEntry.simps)
      apply (rule option.rel_mono_strong)
       apply (rule agree_forEachEntry)
        apply (erule agree_processEntry)
       apply (simp add: agree_def)
      apply (simp add: agree_def)
      done
  qed
qed

text \<open>
  Claim C10: with the entries, the measurements, the starting body fat and the confidence
  level held equal, two calibration factors give the same series of estimates (and, if the
  calibration block raised, it would raise for both).
\<close>

theorem estimates_independent_of_calibration:
  "map_option estimates (calculateBodyComposition es ms sbf cf1 conf)
   = map_option estimates (calculateBodyComposition es ms sbf cf2 conf)"
  using calculateBodyComposition_agree [of es ms sbf cf1 conf cf2]
  by (cases rule: option.rel_cases) simp_all

lemma measuredLog_sorted: "sortByDate measuredLog = measuredLog"
  by (simp add: measuredLog_def sortByDate_def ymd_def)

lemma measuredLog_rate:
  "map_option weightChangeRate (calculateCaloricInference measuredLog conf) = Some (Fin 2)"
  by (simp add: calculateCaloricInference_def measuredLog_def elapsedDays_def getTime_def DAY_MS_def
      ymd_def linearRegression_def sum_numbers_def item_def pow2_def minus_number_def Let_def)

lemma measuredLog_evidence:
  "calibrationEvidence measuredLog measuredLog conf (Fin 20)
     \<lparr>date = ymd 2024 1 2, weight = 82, calories = Some 2000\<rparr> (ymd 2024 1 1)
     [r0\<lparr>e_date := ymd 2024 1 1, fatMass := Fin 20\<rparr>, r1\<lparr>e_date := ymd 2024 1 2\<rparr>] (Fin (41 / 2))
   = Evidence (Fin 15400) 2 (Fin 2) (Fin (1 / 2))"
proof -
  obtain inf where inf: "calculateCaloricInference measuredLog conf = Some inf" "weightChangeRate inf = Fin 2"
    using measuredLog_rate [of conf] by auto
  have range: "filter (\<lambda>e. ymd 2024 1 1 \<le> date e \<and> date e \<le> ymd 2024 1 2) measuredLog = measuredLog"
    by (simp add: measuredLog_def ymd_def)
  have avg: "getAverageIntake measuredLog = Some 2000"
    by (simp add: getAverageIntake_def measuredLog_def)
  show ?thesis
    unfolding calibrationEvidence_def
    apply (simp add: range inf avg Let_def)
    apply (simp add: measuredLog_def hasCalories_def ymd_def getTime_def DAY_MS_def MIN_DAYS_FOR_INFERENCE_def truthy_def minus_number_def)
    done
qed

lemma measuredLog_proposal:
  "map_option newCalibrationFactor
     (calculateBodyComposition measuredLog [\<lparr>m_date = ymd 2024 1 2, bodyFat = Some (Fin 25)\<rparr>]
        (Some (Fin 25)) cf conf)
   = Some (Some (cf\<lparr>cf_date := ymd 2024 1 2,
                     muscleGainFactor := (muscleGainFactor cf + Fin (7 / 10)) / Fin 2\<rparr>))"
proof -
  have ev: "calibrationEvidence measuredLog measuredLog conf (Fin 20)
     \<lparr>date = ymd 2024 1 2, weight = 82, calories = Some 2000\<rparr> (ymd 2024 1 1)
     [\<lparr>e_date = ymd 2024 1 1, e_weight = 80, bodyFatPercentage = Fin 25, fatMass = Fin 20,
        leanMass = Fin 60, bodyFatPercentageCI = (Fin 24, Fin 26), isEstimated = False\<rparr>,
      \<lparr>e_date = ymd 2024 1 2, e_weight = 82, bodyFatPercentage = Fin 25, fatMass = Fin (41 / 2),
        leanMass = Fin (123 / 2), bodyFatPercentageCI = (Fin 24, Fin 26), isEstimated = False\<rparr>]
     (Fin (41 / 2))
   = Evidence (Fin 15400) 2 (Fin 2) (Fin (1 / 2))"
    using measuredLog_evidence [of conf
        "\<lparr>e_date = ymd 2024 1 1, e_weight = 80, bodyFatPercentage = Fin 25, fatMass = Fin 20,
        leanMass = Fin 60, bodyFatPercentageCI = (Fin 24, Fin 26), isEstimated = False\<rparr>"
        "\<lparr>e_date = ymd 2024 1 2, e_weight = 82, bodyFatPercentage = Fin 25, fatMass = Fin (41 / 2),
        leanMass = Fin (123 / 2), bodyFatPercentageCI = (Fin 24, Fin 26), isEstimated = False\<rparr>"]
    by simp
  have log: "measuredLog = [\<lparr>date = ymd 2024 1 1, weight = 80, calories = Some 2000\<rparr>,
                  \<lparr>date = ymd 2024 1 2, weight = 82, calories = Some 2000\<rparr>]"
    by (simp add: measuredLog_def)
  have d: "ymd 2024 1 1 = 19723" "ymd 2024 1 2 = 19724" by (simp_all add: ymd_def)
  note ev' = ev [unfolded log d]
  show ?thesis
    unfolding calculateBodyComposition_def measuredLog_sorted
    apply (subst (1 2) log)
    apply (simp add: Let_def processEntry_def firstEntry_def measuredEntry_def calibrate_def d
        minus_number_def ev' applyCalibration_def Math_max2_def Math_min2_def)
    done
qed

lemma commitEffect_frame:
  assumes "commitEffect st = Some st1"
  shows "entries st1 = entries st" "measurements st1 = measurements st"
    "startingBodyFat st1 = startingBodyFat st" "confidence st1 = confidence st"
    "calibrationFactor st1 = (case proposedCalibration st of Some c \<Rightarrow> c | None \<Rightarrow> calibrationFactor st)"
  using assms
  by (auto simp: commitEffect_def proposedCalibration_def Let_def split: option.splits if_splits)

lemma commitEffect_shape:
  "commitEffect st = Some st1 \<Longrightarrow>
   st1 = st\<lparr>bodyCompositionHistory := bodyCompositionHistory st1, calibrationFactor := calibrationFactor st1\<rparr>"
  by (auto simp: commitEffect_def Let_def split: option.splits if_splits)

lemma commitEffect_runs:
  "bodyCompositionMemo st \<noteq> None \<Longrightarrow> commitEffect st \<noteq> None"
  by (auto simp: commitEffect_def Let_def)

text \<open>
  Whether a run proposes a calibration factor does not depend on the factor it is given:
  once a run proposes one, the run that follows its commit proposes one again.
\<close>

lemma proposal_persists:
  assumes "proposedCalibration st \<noteq> None" and "commitEffect st = Some st1"
  shows "proposedCalibration st1 \<noteq> None"
proof -
  note fr = commitEffect_frame [OF assms(2)]
  have "rel_option (\<lambda>r1 r2. estimates r1 = estimates r2 \<and>
                 (newCalibrationFactor r1 = None \<longleftrightarrow> newCalibrationFactor r2 = None))
          (bodyCompositionMemo st) (bodyCompositionMemo st1)"
    unfolding bodyCompositionMemo_def fr(1-4) by (rule calculateBodyComposition_agree)
  then show ?thesis
    using assms(1) by (cases rule: option.rel_cases) (auto simp: proposedCalibration_def)
qed

lemma measuredState_memo:
  "proposedCalibration (measuredState\<lparr>bodyCompositionHistory := h, calibrationFactor := cf\<rparr>)
   = Some (cf\<lparr>cf_date := ymd 2024 1 2, muscleGainFactor := (muscleGainFactor cf + Fin (7 / 10)) / Fin 2\<rparr>)"
  using measuredLog_proposal [of cf C95]
  by (auto simp: proposedCalibration_def bodyCompositionMemo_def measuredState_def)

text \<open>
  Claim C1, on the state \<open>measuredState\<close>: the claim asks that, once the proposed factor is
  committed, the recomputation proposes no further change. The first run proposes a muscle
  factor of \<open>(0.3 + 0.7) / 2 = 0.5\<close>; the effect commits it; the recomputation proposes
  \<open>(0.5 + 0.7) / 2 = 0.6\<close>, a further change, and by \<open>proposal_persists\<close> every later
  run proposes again.
\<close>

theorem calibration_feedback_cascades:
  "proposedCalibration measuredState
     = Some \<lparr>cf_date = ymd 2024 1 2, muscleGainFactor = Fin (1 / 2), fatLossFactor = Fin (9 / 10)\<rparr> \<and>
   map_option calibrationFactor (commitEffect measuredState)
     = Some \<lparr>cf_date = ymd 2024 1 2, muscleGainFactor = Fin (1 / 2), fatLossFactor = Fin (9 / 10)\<rparr> \<and>
   Option.bind (commitEffect measuredState) proposedCalibration
     = Some \<lparr>cf_date = ymd 2024 1 2, muscleGainFactor = Fin (3 / 5), fatLossFactor = Fin (9 / 10)\<rparr>"
proof -
  let ?c0 = "\<lparr>cf_date = ymd 2024 1 2, muscleGainFactor = Fin (3 / 10), fatLossFactor = Fin (9 / 10)\<rparr>"
  let ?c1 = "\<lparr>cf_date = ymd 2024 1 2, muscleGainFactor = Fin (1 / 2), fatLossFactor = Fin (9 / 10)\<rparr>"
  have st0: "measuredState = measuredState\<lparr>bodyCompositionHistory := [], calibrationFactor := ?c0\<rparr>"
    by (simp add: measuredState_def)
  have p0: "proposedCalibration measuredState = Some ?c1"
    by (subst st0) (simp add: measuredState_memo)
  then have "bodyCompositionMemo measuredState \<noteq> None"
    by (cases "bodyCompositionMemo measuredState") (simp_all add: proposedCalibration_def)
  then obtain st1 where st1: "commitEffect measuredState = Some st1"
    using commitEffect_runs by blast
  have shape: "st1 = measuredState\<lparr>bodyCompositionHistory := bodyCompositionHistory st1,
                                     calibrationFactor := calibrationFactor st1\<rparr>"
    by (rule commitEffect_shape [OF st1])
  have c1: "calibrationFactor st1 = ?c1"
    using commitEffect_frame(5) [OF st1] p0 by simp
  obtain h where st1_eq: "st1 = measuredState\<lparr>bodyCompositionHistory := h, calibrationFactor := ?c1\<rparr>"
    using shape c1 by metis
  have p1: "proposedCalibration st1
            = Some \<lparr>cf_date = ymd 2024 1 2, muscleGainFactor = Fin (3 / 5), fatLossFactor = Fin (9 / 10)\<rparr>"
    unfolding st1_eq by (simp add: measuredState_memo)
  show ?thesis
    using p0 p1 c1 by (simp add: st1)
qed

lemma evidence_shape:
  "(if c then (case x of None \<Rightarrow> NoEvidence | Some i \<Rightarrow> Evidence (a i) (b i) (t i) (m i)) else NoEvidence)
   \<noteq> TypeError"
  by (simp split: option.split)

lemma calibrationEvidence_anchor:
  assumes "lastDate \<in> date ` set S"
  shows "calibrationEvidence E S conf f e lastDate rs fm \<noteq> TypeError"
proof -
  from assms obtain anchor where anchor: "find (\<lambda>e. date e = lastDate) S = Some anchor"
    by (cases "find (\<lambda>e. date e = lastDate) S") (auto simp: find_None_iff)
  show ?thesis
    unfolding calibrationEvidence_def Let_def anchor option.case
    by (rule evidence_shape)
qed

lemma applyCalibration_date:
  "lastCalibrationDate (applyCalibration x w t f e s) = lastCalibrationDate s"
  unfolding applyCalibration_def Let_def by simp

lemma calibrate_returns:
  assumes "lastCalibrationDate s \<in> date ` set S"
  shows "\<exists>s'. calibrate E S conf f e s = Some s'"
  using calibrationEvidence_anchor [OF assms, of E conf f e "results s" "currentFatMass s"]
  unfolding calibrate_def by (simp split: evidence.split)

lemma measuredEntry_returns:
  assumes "lastCalibrationDate s \<in> date ` set S" and "e \<in> set S"
  shows "\<exists>s'. measuredEntry E S conf f abf p e s = Some s' \<and> lastCalibrationDate s' \<in> date ` set S"
proof (cases p)
  case None
  then show ?thesis using assms(1) by (simp add: measuredEntry_def Let_def)
next
  case (Some q)
  let ?s1 = "s\<lparr>currentFatMass := Fin (weight e) * (abf / Fin 100),
                 currentLeanMass := Fin (weight e) - Fin (weight e) * (abf / Fin 100),
                 lastKnownFatPercentage := abf,
                 results := results s @
                   [\<lparr>e_date = date e, e_weight = weight e,
                     bodyFatPercentage = abf,
                     fatMass = Fin (weight e) * (abf / Fin 100),
                     leanMass = Fin (weight e) - Fin (weight e) * (abf / Fin 100),
                     bodyFatPercentageCI = (abf - Fin 1, abf + Fin 1),
                     isEstimated = False\<rparr>]\<rparr>"
  have "lastCalibrationDate ?s1 \<in> date ` set S" using assms(1) by simp
  then obtain s2 where "calibrate E S conf f e ?s1 = Some s2"
    using calibrate_returns by blast
  then show ?thesis using Some assms(2) by (simp add: measuredEntry_def Let_def)
qed

lemma processEntry_returns:
  assumes "lastCalibrationDate s \<in> date ` set S" and "e \<in> set S"
  shows "\<exists>s'. processEntry E S M conf x y z p e s = Some s' \<and> lastCalibrationDate s' \<in> date ` set S"
  unfolding processEntry_def
  using assms measuredEntry_returns [OF assms]
  by (simp add: estimatedEntry_def carriedEntry_def firstEntry_def Let_def split: option.split)

lemma forEachEntry_returns:
  assumes "set es \<subseteq> set S" and "lastCalibrationDate s \<in> date ` set S"
  shows "\<exists>s'. forEachEntry (processEntry E S M conf x y z) p es s = Some s'"
  using assms
proof (induction es arbitrary: p s)
  case Nil
  show ?case by simp
next
  case (Cons e es)
  then obtain s1 where s1: "processEntry E S M conf x y z p e s = Some s1"
      "lastCalibrationDate s1 \<in> date ` set S"
    using processEntry_returns [of s S e E M conf x y z p] by auto
  with Cons.IH [of s1 "Some e"] Cons.prems show ?case by simp
qed

text \<open>The estimator always returns: the anchor entry it looks up is always in the log.\<close>

lemma calculateBodyComposition_returns:
  "calculateBodyComposition es ms sbf cf conf \<noteq> None"
proof (cases "sortByDate es")
  case Nil
  then show ?thesis by (simp add: calculateBodyComposition_def)
next
  case (Cons first others)
  show ?thesis
  proof (cases sbf)
    case None
    then show ?thesis using Cons by (simp add: calculateBodyComposition_def)
  next
    case (Some startBodyFat)
    show ?thesis
      unfolding calculateBodyComposition_def Cons Some
      apply (simp add: Let_def del: forEachEntry.simps)
      apply (rule forEachEntry_returns)
       apply (rule subset_refl)
      apply simp
      done
  qed
qed

section \<open>Properties of the estimator run on the store\<close>

text \<open>What a run leaves in the store: three new objects, and every older one as it was.\<close>

lemma bodyCompositionRun_store:
  "snd (bodyCompositionRun d \<sigma>)
   = (if length (entryArrays \<sigma> (entriesRef d)) = 0 \<or> startingBodyFatText d = None then \<sigma>
      else \<sigma>\<lparr>entryArrays := (entryArrays \<sigma>)(nextRef \<sigma> := sortByDate (entryArrays \<sigma> (entriesRef d))),
             measurementArrays := (measurementArrays \<sigma>)
               (Suc (nextRef \<sigma>) := sort_key m_date (filter (\<lambda>m. bodyFat m \<noteq> None)
                                                        (measurementArrays \<sigma> (measurementsRef d)))),
             calibrationObjects := (calibrationObjects \<sigma>)
               (Suc (Suc (nextRef \<sigma>)) := calibrationObjects \<sigma> (calibrationFactorRef d)),
             nextRef := Suc (Suc (Suc (nextRef \<sigma>)))\<rparr>)"
  by (simp add: bodyCompositionRun_def spreadEntries_def sortEntries_def filterMeasurements_def
                sortMeasurements_def spreadCalibration_def split_def Let_def)

lemma bodyCompositionRun_frame:
  assumes "wellFormed d \<sigma>"
  shows "inputs d (snd (bodyCompositionRun d \<sigma>)) = inputs d \<sigma>"
    and "wellFormed d (snd (bodyCompositionRun d \<sigma>))"
  using assms by (auto simp: bodyCompositionRun_store inputs_def wellFormed_def)

text \<open>
  The value of a run is that of \<open>calculateBodyComposition\<close> on the contents of the two
  arrays and of the calibration object: the sorts act on the copies.
\<close>

lemma bodyCompositionRun_value:
  assumes "wellFormed d \<sigma>"
  shows "fst (bodyCompositionRun d \<sigma>)
         = calculateBodyComposition (entryArrays \<sigma> (entriesRef d)) (measurementArrays \<sigma> (measurementsRef d))
             (startingBodyFatText d) (calibrationObjects \<sigma> (calibrationFactorRef d)) (confidenceLevel d)"
proof (cases "entryArrays \<sigma> (entriesRef d) = [] \<or> startingBodyFatText d = None")
  case True
  then show ?thesis
    by (auto simp: bodyCompositionRun_def calculateBodyComposition_def sortByDate_def
             split: list.splits option.splits)
next
  case False
  then obtain b where B: "startingBodyFatText d = Some b" by auto
  from False have "sortByDate (entryArrays \<sigma> (entriesRef d)) \<noteq> []"
    by (metis length_0_conv length_sort sortByDate_def)
  then obtain first others where S: "sortByDate (entryArrays \<sigma> (entriesRef d)) = first # others"
    by (cases "sortByDate (entryArrays \<sigma> (entriesRef d))") auto
  show ?thesis
    using False assms
    unfolding bodyCompositionRun_def calculateBodyComposition_def wellFormed_def
    by (simp add: spreadEntries_def sortEntries_def filterMeasurements_def
                  sortMeasurements_def spreadCalibration_def split_def Let_def S B)
qed

lemma bodyCompositionRun_inputs:
  assumes "wellFormed d \<sigma>" and "wellFormed d' \<sigma>'" and "inputs d' \<sigma>' = inputs d \<sigma>"
  shows "fst (bodyCompositionRun d' \<sigma>') = fst (bodyCompositionRun d \<sigma>)"
  using assms(3)
  unfolding bodyCompositionRun_value [OF assms(1)] bodyCompositionRun_value [OF assms(2)]
  by (simp add: inputs_def)

lemma bodyCompositionRun_returns:
  "wellFormed d \<sigma> \<Longrightarrow> fst (bodyCompositionRun d \<sigma>) \<noteq> None"
  by (simp add: bodyCompositionRun_value calculateBodyComposition_returns)

text \<open>
  Claim C9: two runs of the estimator on the same entries, measurements, starting body fat,
  calibration factor and confidence level return the same estimates and the same proposed
  calibration, wherever the arrays lie and whatever else the store holds; a run returns a
  result; and it leaves these five inputs as it found them, so that the run after it is a
  run on the same inputs.
\<close>

theorem bodyCompositionRun_idempotent:
  assumes "wellFormed d \<sigma>" and "wellFormed d' \<sigma>'" and "inputs d' \<sigma>' = inputs d \<sigma>"
  shows "fst (bodyCompositionRun d' \<sigma>') = fst (bodyCompositionRun d \<sigma>) \<and>
         fst (bodyCompositionRun d \<sigma>) \<noteq> None \<and>
         inputs d (snd (bodyCompositionRun d \<sigma>)) = inputs d \<sigma> \<and>
         wellFormed d (snd (bodyCompositionRun d \<sigma>))"
  using bodyCompositionRun_inputs [OF assms] bodyCompositionRun_frame [OF assms(1)]
        bodyCompositionRun_returns [OF assms(1)]
  by simp

lemma measuredStore_wellFormed: "wellFormed measuredDependencies measuredStore"
  by (simp add: wellFormed_def measuredStore_def measuredDependencies_def)

lemma measuredStore_nextRef:
  "nextRef (snd (bodyCompositionRun measuredDependencies measuredStore)) = 7"
  by (simp add: bodyCompositionRun_store measuredStore_def measuredDependencies_def measuredLog_def)

lemma measuredStore_proposal:
  "map_option newCalibrationFactor (fst (bodyCompositionRun measuredDependencies measuredStore))
   = Some (Some \<lparr>cf_date = ymd 2024 1 2, muscleGainFactor = Fin (1 / 2), fatLossFactor = Fin (9 / 10)\<rparr>)"
  unfolding bodyCompositionRun_value [OF measuredStore_wellFormed]
  using measuredLog_proposal
          [of "\<lparr>cf_date = ymd 2024 1 2, muscleGainFactor = Fin (3 / 10), fatLossFactor = Fin (9 / 10)\<rparr>" C95]
  by (simp add: measuredStore_def measuredDependencies_def)

theorem bodyCompositionRun_idempotent_witness:
  "wellFormed measuredDependencies measuredStore \<and>
   wellFormed measuredDependencies (snd (bodyCompositionRun measuredDependencies measuredStore)) \<and>
   inputs measuredDependencies (snd (bodyCompositionRun measuredDependencies measuredStore))
     = inputs measuredDependencies measuredStore \<and>
   nextRef measuredStore = 4 \<and>
   nextRef (snd (bodyCompositionRun measuredDependencies measuredStore)) = 7 \<and>
   fst (bodyCompositionRun measuredDependencies
          (snd (bodyCompositionRun measuredDependencies measuredStore)))
     = fst (bodyCompositionRun measuredDependencies measuredStore) \<and>
   map_option newCalibrationFactor (fst (bodyCompositionRun measuredDependencies measuredStore))
     = Some (Some \<lparr>cf_date = ymd 2024 1 2, muscleGainFactor = Fin (1 / 2), fatLossFactor = Fin (9 / 10)\<rparr>)"
proof -
  note w = measuredStore_wellFormed
  note first = bodyCompositionRun_idempotent [OF w w refl]
  from first have frame:
    "inputs measuredDependencies (snd (bodyCompositionRun measuredDependencies measuredStore))
     = inputs measuredDependencies measuredStore"
    and w': "wellFormed measuredDependencies (snd (bodyCompositionRun measuredDependencies measuredStore))"
    by simp_all
  note second = bodyCompositionRun_idempotent [OF w w' frame]
  show ?thesis
    using w w' frame second measuredStore_nextRef measuredStore_proposal
    by (simp add: measuredStore_def)
qed

end
